theory Spec2Isabelle
  imports Complex_Main "HOL-Library.Word" "HOL-Library.Signed_Division" "HOL-Library.Multiset"
begin

section \<open>Machine types\<close>

text \<open>
  Go's \<open>int\<close> is read as a 64-bit two's complement word (\<open>+\<close> wraps, comparisons go
  through \<open>sint\<close>); \<open>time.Duration\<close> is an \<open>int64\<close>.
\<close>

type_synonym go_int = "64 word"
type_synonym duration = "64 word"

text \<open>
  Fitness values are \<open>float64\<close>. The engine only ever compares them (\<open><\<close> in
  \<open>findBest\<close>, the sort order), so a fitness is read as an extended real: a finite
  value or one of the two infinities, linearly ordered as Go's \<open><\<close> orders them.
  NaN, on which \<open><\<close> is not an order, is outside the model.
\<close>

datatype float64 = NegInf | Fin real | PosInf

instantiation float64 :: linorder
begin

fun less_eq_float64 :: "float64 \<Rightarrow> float64 \<Rightarrow> bool" where
  "less_eq_float64 NegInf y = True"
| "less_eq_float64 (Fin a) NegInf = False"
| "less_eq_float64 (Fin a) (Fin b) = (a \<le> b)"
| "less_eq_float64 (Fin a) PosInf = True"
| "less_eq_float64 PosInf NegInf = False"
| "less_eq_float64 PosInf (Fin b) = False"
| "less_eq_float64 PosInf PosInf = True"

definition less_float64 :: "float64 \<Rightarrow> float64 \<Rightarrow> bool" where
  "less_float64 x y = (x \<le> y \<and> \<not> y \<le> x)"

instance
proof
  fix x y z :: float64
  show "(x < y) = (x \<le> y \<and> \<not> y \<le> x)"
    by (simp add: less_float64_def)
  show "x \<le> x"
    by (cases x) simp_all
  show "x \<le> y \<Longrightarrow> y \<le> z \<Longrightarrow> x \<le> z"
    by (cases x; cases y; cases z) simp_all
  show "x \<le> y \<Longrightarrow> y \<le> x \<Longrightarrow> x = y"
    by (cases x; cases y) simp_all
  show "x \<le> y \<or> y \<le> x"
    by (cases x; cases y) auto
qed

end

text \<open>An \<open>error\<close> made by \<open>errors.New\<close>, and the run-time panics the code can raise.\<close>

datatype error = ErrorsNew string

datatype panic = NilDereference | MakeSliceLenOutOfRange | IndexOutOfRange | DivideByZero

text \<open>
  Go's \<open>%\<close> on \<open>int\<close>: the remainder of the division truncated towards zero. A zero
  divisor panics, which the caller models; the most negative value divided by \<open>-1\<close>
  gives remainder \<open>0\<close>.
\<close>

definition go_rem :: "go_int \<Rightarrow> go_int \<Rightarrow> go_int" where
  "go_rem a b = word_of_int (sint a smod sint b)"

section \<open>Data model\<close>

text \<open>\<open>type Topology struct\<close> (ga.go).\<close>

record Topology =
  NPopulations :: go_int
  NSpecies :: go_int
  NIndividuals :: go_int

text \<open>
  Modelled from the spec: the \<open>Individual\<close> and \<open>Population\<close> structs, whose
  declarations are not in ga.go. An individual is a genome plus its cached fitness; a
  population is an ordered sequence of individuals plus its identity, age, generation
  counter and its own random stream. The population's \<open>Age\<close> and \<open>Generations\<close>
  fields are written \<open>PopAge\<close> and \<open>PopGenerations\<close> here, apart from the GA's.
\<close>

record 'g Individual =
  Genome :: 'g
  Fitness :: float64

record ('g, 'r) Population =
  Individuals :: "'g Individual list"
  PopAge :: duration
  PopGenerations :: go_int
  ID :: go_int
  PopRng :: 'r

text \<open>
  The \<open>Model\<close> and \<open>Migrator\<close> interfaces, as ga.go calls them:
  \<open>Model.Apply(&pop)\<close> mutates one population through a pointer, \<open>Model.Validate()\<close>
  returns an error or nil, \<open>Migrator.Apply(pops, rng)\<close> mutates the populations and the
  random source it is handed. The migrator is handed the slice by value: the list it
  returns stands for the contents of the same slots afterwards. Panics inside a
  collaborator are the collaborator's and are not modelled.
\<close>

record ('g, 'r) Model =
  ModelApply :: "('g, 'r) Population \<Rightarrow> ('g, 'r) Population"
  ModelValidate :: "error option"

record ('g, 'r) Migrator =
  MigratorApply :: "('g, 'r) Population list \<Rightarrow> 'r \<Rightarrow> ('g, 'r) Population list \<times> 'r"

text \<open>
  \<open>type GA struct\<close> (ga.go). A nil \<open>MakeGenome\<close>, \<open>Model\<close> or \<open>Migrator\<close> is
  \<open>None\<close>; \<open>Logger\<close> records whether a logger is set.
\<close>

record ('g, 'r) GA =
  MakeGenome :: "('r \<Rightarrow> 'g \<times> 'r) option"
  Topology :: Topology
  Model :: "('g, 'r) Model option"
  Migrator :: "('g, 'r) Migrator option"
  MigFrequency :: go_int
  Logger :: bool
  Populations :: "('g, 'r) Population list"
  Best :: "'g Individual"
  Age :: duration
  Generations :: go_int
  rng :: 'r

section \<open>Validation\<close>

text \<open>\<open>func (topo Topology) Validate() error\<close>; \<open>None\<close> is the nil error.\<close>

definition Topology_Validate :: "Topology \<Rightarrow> error option" where
  "Topology_Validate topo =
     (if sint (NPopulations topo) < 1 then
        Some (ErrorsNew '''NPopulations' should be higher or equal to 1'')
      else if sint (NSpecies topo) < 0 then
        Some (ErrorsNew '''NSpecies' should be higher or equal to 1 if provided'')
      else if sint (NIndividuals topo) < 1 then
        Some (ErrorsNew '''NIndividuals' should be higher or equal to 1'')
      else None)"

text \<open>\<open>func (ga GA) Validate() error\<close>.\<close>

definition GA_Validate :: "('g, 'r) GA \<Rightarrow> error option" where
  "GA_Validate ga =
     (case MakeGenome ga of
        None \<Rightarrow> Some (ErrorsNew '''GenomeMaker' cannot be nil'')
      | Some _ \<Rightarrow>
        (case Topology_Validate (Topology ga) of
           Some topoErr \<Rightarrow> Some topoErr
         | None \<Rightarrow>
           (case Model ga of
              None \<Rightarrow> Some (ErrorsNew '''Model' cannot be nil'')
            | Some m \<Rightarrow>
              (case ModelValidate m of
                 Some modelErr \<Rightarrow> Some modelErr
               | None \<Rightarrow>
                 if Migrator ga \<noteq> None \<and> sint (MigFrequency ga) < 1 then
                   Some (ErrorsNew '''MigFrequency' should be strictly higher than 0'')
                 else None))))"

section \<open>Collaborators and inputs from outside ga.go\<close>

text \<open>
  What ga.go calls but does not define is a parameter of the model:
  \<^item> \<open>GenomeEvaluate\<close>: the \<open>Evaluate\<close> method of the user's genome type;
  \<^item> \<open>unevaluatedFitness\<close>: the fitness \<open>MakeIndividual\<close> gives an individual that
    has not been evaluated (the spec calls it an undefined or sentinel value and does
    not fix it);
  \<^item> \<open>speciate\<close>: the partitioning of a population into species, a scheme the spec
    leaves open.
\<close>

record ('g, 'r) Env =
  GenomeEvaluate :: "'g \<Rightarrow> float64"
  unevaluatedFitness :: float64
  speciate :: "('g, 'r) Population \<Rightarrow> go_int \<Rightarrow> ('g, 'r) Population list"

text \<open>
  The results of the calls of \<open>makeRandomNumberGenerator()\<close> during one
  \<open>Initialize\<close> (the GA's own stream, the stream of population \<open>j\<close>, the stream that
  seeds the dummy best), and the readings of \<open>time.Since(start)\<close> during one
  \<open>Enhance\<close> (by the worker of population \<open>j\<close>, and by the GA at the end).
\<close>

record 'r Seeds =
  gaSeed :: 'r
  popSeed :: "nat \<Rightarrow> 'r"
  bestSeed :: 'r

record Clock =
  popElapsed :: "nat \<Rightarrow> duration"
  gaElapsed :: duration

text \<open>Calls of collaborators that an \<open>Enhance\<close> makes, in the order it makes them.\<close>

datatype event = MigratorCall | WorkerRun nat

section \<open>Individuals and populations\<close>

text \<open>
  Modelled from the spec: \<open>MakeIndividual\<close>, missing from ga.go. It wraps a genome
  into an individual that is not evaluated yet.
\<close>

definition MakeIndividual :: "('g, 'r) Env \<Rightarrow> 'g \<Rightarrow> 'g Individual" where
  "MakeIndividual env genome = \<lparr>Genome = genome, Fitness = unevaluatedFitness env\<rparr>"

text \<open>
  Modelled from the spec: \<open>makePopulation\<close>, missing from ga.go. It constructs
  \<open>n\<close> individuals through the genome factory, drawing from the population's own
  random stream; allocating a negative number of individuals panics, and so does
  calling a nil factory.
\<close>

fun makeIndividuals ::
  "('g, 'r) Env \<Rightarrow> nat \<Rightarrow> ('r \<Rightarrow> 'g \<times> 'r) option \<Rightarrow> 'r \<Rightarrow> panic + ('g Individual list \<times> 'r)"
where
  "makeIndividuals env 0 gm r = Inr ([], r)"
| "makeIndividuals env (Suc n) gm r =
     (case gm of
        None \<Rightarrow> Inl NilDereference
      | Some f \<Rightarrow>
        (case f r of
           (genome, r') \<Rightarrow>
             (case makeIndividuals env n gm r' of
                Inl p \<Rightarrow> Inl p
              | Inr (indis, r'') \<Rightarrow> Inr (MakeIndividual env genome # indis, r''))))"

definition makePopulation ::
  "('g, 'r) Env \<Rightarrow> go_int \<Rightarrow> ('r \<Rightarrow> 'g \<times> 'r) option \<Rightarrow> nat \<Rightarrow> 'r \<Rightarrow> panic + ('g, 'r) Population"
where
  "makePopulation env nbIndis gm j seed =
     (if sint nbIndis < 0 then Inl MakeSliceLenOutOfRange
      else
        (case makeIndividuals env (nat (sint nbIndis)) gm seed of
           Inl p \<Rightarrow> Inl p
         | Inr (indis, r) \<Rightarrow>
             Inr \<lparr>Individuals = indis, PopAge = 0, PopGenerations = 0,
                  ID = of_nat j, PopRng = r\<rparr>))"

text \<open>
  Modelled from the spec: \<open>Individuals.Evaluate\<close> and \<open>Individuals.Sort\<close>, missing
  from ga.go. Evaluation is unconditional and caches every genome's fitness; the sort is
  ascending by fitness (the order among equal fitnesses is the insertion sort's).
\<close>

definition Evaluate :: "('g, 'r) Env \<Rightarrow> 'g Individual list \<Rightarrow> 'g Individual list" where
  "Evaluate env indis = map (\<lambda>indi. indi\<lparr>Fitness := GenomeEvaluate env (Genome indi)\<rparr>) indis"

definition Sort :: "'g Individual list \<Rightarrow> 'g Individual list" where
  "Sort indis = sort_key Fitness indis"

text \<open>
  Modelled from the spec: \<open>Species.merge\<close>, missing from ga.go. The species'
  individuals are concatenated back into one sequence.
\<close>

definition merge :: "('g, 'r) Population list \<Rightarrow> 'g Individual list" where
  "merge species = concat (map Individuals species)"

section \<open>The orchestrator\<close>

text \<open>
  A loop whose body can panic: the first panic ends it. The two wait groups of ga.go
  run one worker per population, each writing its own slot only, so the workers are run
  here one after the other, in index order.
\<close>

fun forEach :: "('a \<Rightarrow> panic + 'b) \<Rightarrow> 'a list \<Rightarrow> panic + 'b list" where
  "forEach f [] = Inr []"
| "forEach f (x # xs) =
     (case f x of
        Inl p \<Rightarrow> Inl p
      | Inr y \<Rightarrow> (case forEach f xs of Inl p \<Rightarrow> Inl p | Inr ys \<Rightarrow> Inr (y # ys)))"

text \<open>
  \<open>func (ga *GA) findBest()\<close>: the loop over the populations, on the current best;
  \<open>pop.Individuals[0]\<close> panics on an empty population.
\<close>

fun findBest_loop :: "'g Individual \<Rightarrow> ('g, 'r) Population list \<Rightarrow> panic + 'g Individual" where
  "findBest_loop gaBest [] = Inr gaBest"
| "findBest_loop gaBest (pop # pops) =
     (case Individuals pop of
        [] \<Rightarrow> Inl IndexOutOfRange
      | best # _ \<Rightarrow>
          findBest_loop (if Fitness best < Fitness gaBest then best else gaBest) pops)"

definition findBest :: "('g, 'r) GA \<Rightarrow> panic + ('g, 'r) GA" where
  "findBest ga =
     (case findBest_loop (Best ga) (Populations ga) of
        Inl p \<Rightarrow> Inl p
      | Inr b \<Rightarrow> Inr (ga\<lparr>Best := b\<rparr>))"

text \<open>The body of the goroutine of \<open>Initialize\<close>, for population \<open>j\<close>.\<close>

definition Initialize_worker ::
  "('g, 'r) Env \<Rightarrow> 'r Seeds \<Rightarrow> ('g, 'r) GA \<Rightarrow> nat \<Rightarrow> panic + ('g, 'r) Population"
where
  "Initialize_worker env seeds ga j =
     (case makePopulation env (NIndividuals (Topology ga)) (MakeGenome ga) j (popSeed seeds j) of
        Inl p \<Rightarrow> Inl p
      | Inr pop \<Rightarrow> Inr (pop\<lparr>Individuals := Sort (Evaluate env (Individuals pop))\<rparr>))"

text \<open>
  \<open>func (ga *GA) Initialize()\<close>. \<open>make([]Population, n)\<close> panics on a negative
  \<open>n\<close>; calling a nil \<open>MakeGenome\<close> panics.
\<close>

definition Initialize ::
  "('g, 'r) Env \<Rightarrow> 'r Seeds \<Rightarrow> ('g, 'r) GA \<Rightarrow> panic + ('g, 'r) GA"
where
  "Initialize env seeds ga =
     (if sint (NPopulations (Topology ga)) < 0 then Inl MakeSliceLenOutOfRange
      else
        (case forEach (Initialize_worker env seeds ga)
                [0 ..< nat (sint (NPopulations (Topology ga)))] of
           Inl p \<Rightarrow> Inl p
         | Inr pops \<Rightarrow>
             (case MakeGenome ga of
                None \<Rightarrow> Inl NilDereference
              | Some gm \<Rightarrow>
                  findBest (ga\<lparr>Populations := pops, rng := gaSeed seeds,
                               Best := MakeIndividual env (fst (gm (bestSeed seeds)))\<rparr>))))"

text \<open>
  The migration gate of \<open>Enhance\<close> (the \<open>if\<close> after \<open>ga.Generations++\<close>), on the
  GA whose counter is already incremented. \<open>&&\<close> evaluates from the left, so the
  remainder, which panics on a zero \<open>MigFrequency\<close>, is only computed when there is more
  than one population and a migrator.
\<close>

definition migrate :: "('g, 'r) GA \<Rightarrow> panic + (('g, 'r) GA \<times> event list)" where
  "migrate ga =
     (if 1 < sint (NPopulations (Topology ga)) then
        (case Migrator ga of
           None \<Rightarrow> Inr (ga, [])
         | Some mig \<Rightarrow>
             if MigFrequency ga = 0 then Inl DivideByZero
             else if go_rem (Generations ga) (MigFrequency ga) = 0 then
               (case MigratorApply mig (Populations ga) (rng ga) of
                  (pops, r) \<Rightarrow> Inr (ga\<lparr>Populations := pops, rng := r\<rparr>, [MigratorCall]))
             else Inr (ga, []))
      else Inr (ga, []))"

text \<open>\<open>ga.Model.Apply(&pop)\<close>: a nil model panics.\<close>

definition applyModel ::
  "('g, 'r) Model option \<Rightarrow> ('g, 'r) Population \<Rightarrow> panic + ('g, 'r) Population"
where
  "applyModel model pop =
     (case model of None \<Rightarrow> Inl NilDereference | Some m \<Rightarrow> Inr (ModelApply m pop))"

text \<open>The first half of the goroutine of \<open>Enhance\<close>: speciation or not.\<close>

definition evolve ::
  "('g, 'r) Env \<Rightarrow> ('g, 'r) GA \<Rightarrow> ('g, 'r) Population \<Rightarrow> panic + ('g, 'r) Population"
where
  "evolve env ga pop =
     (if 0 < sint (NSpecies (Topology ga)) then
        (case forEach (applyModel (Model ga)) (speciate env pop (NSpecies (Topology ga))) of
           Inl p \<Rightarrow> Inl p
         | Inr species \<Rightarrow> Inr (pop\<lparr>Individuals := merge species\<rparr>))
      else applyModel (Model ga) pop)"

text \<open>
  The body of the goroutine of \<open>Enhance\<close>, for population \<open>j\<close>. Handing the
  population to the logger, when there is one, starts a goroutine of its own and changes
  nothing of the GA; it is left out here and in \<open>Initialize_worker\<close>.
\<close>

definition Enhance_worker ::
  "('g, 'r) Env \<Rightarrow> Clock \<Rightarrow> ('g, 'r) GA \<Rightarrow> nat \<times> ('g, 'r) Population \<Rightarrow> panic + ('g, 'r) Population"
where
  "Enhance_worker env clock ga jp =
     (case jp of
        (j, pop) \<Rightarrow>
          (case evolve env ga pop of
             Inl p \<Rightarrow> Inl p
           | Inr pop' \<Rightarrow>
               Inr (pop'\<lparr>Individuals := Sort (Evaluate env (Individuals pop')),
                         PopAge := PopAge pop' + popElapsed clock j,
                         PopGenerations := PopGenerations pop' + 1\<rparr>)))"

text \<open>\<open>func (ga *GA) Enhance()\<close>, with the calls it made.\<close>

definition Enhance ::
  "('g, 'r) Env \<Rightarrow> Clock \<Rightarrow> ('g, 'r) GA \<Rightarrow> panic + (('g, 'r) GA \<times> event list)"
where
  "Enhance env clock ga =
     (case migrate (ga\<lparr>Generations := Generations ga + 1\<rparr>) of
        Inl p \<Rightarrow> Inl p
      | Inr (ga1, migrations) \<Rightarrow>
          (case forEach (Enhance_worker env clock ga1) (enumerate 0 (Populations ga1)) of
             Inl p \<Rightarrow> Inl p
           | Inr pops \<Rightarrow>
               (case findBest (ga1\<lparr>Populations := pops\<rparr>) of
                  Inl p \<Rightarrow> Inl p
                | Inr ga2 \<Rightarrow>
                    Inr (ga2\<lparr>Age := Age ga2 + gaElapsed clock\<rparr>,
                         migrations @ map WorkerRun [0 ..< length pops]))))"

text \<open>A sequence of \<open>Enhance\<close> calls, one clock per call.\<close>

fun Enhances :: "('g, 'r) Env \<Rightarrow> Clock list \<Rightarrow> ('g, 'r) GA \<Rightarrow> panic + ('g, 'r) GA" where
  "Enhances env [] ga = Inr ga"
| "Enhances env (clock # clocks) ga =
     (case Enhance env clock ga of
        Inl p \<Rightarrow> Inl p
      | Inr (ga', _) \<Rightarrow> Enhances env clocks ga')"

text \<open>
  The first individuals of the populations, in population order: what \<open>findBest\<close>
  reads. An empty population has none.
\<close>

definition firsts :: "('g, 'r) Population list \<Rightarrow> 'g Individual list" where
  "firsts pops = concat (map (\<lambda>pop. take 1 (Individuals pop)) pops)"

text \<open>
  What C1 says of the GA after \<open>Initialize\<close>: \<open>Best\<close> is one of the populations'
  first individuals, and none of them has a lower fitness.
\<close>

definition Best_is_best_first :: "('g, 'r) GA \<Rightarrow> bool" where
  "Best_is_best_first ga =
     (Best ga \<in> set (firsts (Populations ga))
      \<and> (\<forall>f \<in> set (firsts (Populations ga)). Fitness (Best ga) \<le> Fitness f))"

text \<open>
  What C8 says a worker of \<open>Enhance\<close> hands to evaluation and sorting: with a
  positive number of species the merged species, the model applied to each; otherwise
  the individuals of the population, the model applied to it as a whole.
\<close>

definition evolved ::
  "('g, 'r) Env \<Rightarrow> ('g, 'r) Model \<Rightarrow> go_int \<Rightarrow> ('g, 'r) Population \<Rightarrow> 'g Individual list"
where
  "evolved env model n pop =
     (if 0 < sint n then merge (map (ModelApply model) (speciate env pop n))
      else Individuals (ModelApply model pop))"

section \<open>An example configuration\<close>

text \<open>
  Two populations of three integer genomes, the fitness of a genome being its value, a
  model that lowers every genome by one, a migrator that exchanges the individuals of the
  first two populations, every second generation, and a round-robin speciation. The random
  streams are counters. \<open>demo_ga0\<close>, \<open>demo_ga1\<close> and \<open>demo_ga2\<close> are the GA after
  \<open>Initialize\<close>, after one \<open>Enhance\<close> and after two.
\<close>

definition demo_MakeGenome :: "int \<Rightarrow> int \<times> int" where
  "demo_MakeGenome r = ((r * 3) mod 5, r + 1)"

definition demo_speciate :: "(int, int) Population \<Rightarrow> go_int \<Rightarrow> (int, int) Population list" where
  "demo_speciate pop n =
     map (\<lambda>k. pop\<lparr>Individuals :=
                 map snd (filter (\<lambda>ix. fst ix mod nat (sint n) = k) (enumerate 0 (Individuals pop)))\<rparr>)
       [0 ..< nat (sint n)]"

definition demo_env :: "(int, int) Env" where
  "demo_env = \<lparr>GenomeEvaluate = (\<lambda>g. Fin (of_int g)), unevaluatedFitness = PosInf,
                speciate = demo_speciate\<rparr>"

definition demo_seeds :: "int Seeds" where
  "demo_seeds = \<lparr>gaSeed = 0, popSeed = (\<lambda>j. int j * 2), bestSeed = 7\<rparr>"

definition demo_clock :: Clock where
  "demo_clock = \<lparr>popElapsed = (\<lambda>j. 5), gaElapsed = 6\<rparr>"

definition demo_model :: "(int, int) Model" where
  "demo_model =
     \<lparr>ModelApply = (\<lambda>pop. pop\<lparr>Individuals :=
                        map (\<lambda>indi. indi\<lparr>Genome := Genome indi - 1\<rparr>) (Individuals pop)\<rparr>),
      ModelValidate = None\<rparr>"

definition demo_migrator :: "(int, int) Migrator" where
  "demo_migrator =
     \<lparr>MigratorApply = (\<lambda>pops r.
        (case pops of
           p # q # rest \<Rightarrow>
             p\<lparr>Individuals := Individuals q\<rparr> # q\<lparr>Individuals := Individuals p\<rparr> # rest
         | _ \<Rightarrow> pops, r + 1))\<rparr>"

definition demo_ga :: "(int, int) GA" where
  "demo_ga =
     \<lparr>MakeGenome = Some demo_MakeGenome,
      Topology = \<lparr>NPopulations = 2, NSpecies = 0, NIndividuals = 3\<rparr>,
      Model = Some demo_model, Migrator = Some demo_migrator, MigFrequency = 2,
      Logger = False, Populations = [],
      Best = \<lparr>Genome = 0, Fitness = Fin 0\<rparr>, Age = 0, Generations = 0, rng = 0\<rparr>"

definition demo_pop :: "int list \<Rightarrow> go_int \<Rightarrow> go_int \<Rightarrow> go_int \<Rightarrow> int \<Rightarrow> (int, int) Population" where
  "demo_pop gs a g i r = \<lparr>Individuals = map (\<lambda>x. \<lparr>Genome = x, Fitness = Fin (of_int x)\<rparr>) gs,
      PopAge = a, PopGenerations = g, ID = i, PopRng = r\<rparr>"

definition demo_ga0 :: "(int, int) GA" where
  "demo_ga0 = demo_ga\<lparr>Populations := [demo_pop [0, 1, 3] 0 0 0 3, demo_pop [1, 2, 4] 0 0 1 5],
      Best := \<lparr>Genome = 0, Fitness = Fin 0\<rparr>\<rparr>"

definition demo_ga1 :: "(int, int) GA" where
  "demo_ga1 = demo_ga\<lparr>Populations := [demo_pop [-1, 0, 2] 5 1 0 3, demo_pop [0, 1, 3] 5 1 1 5],
      Best := \<lparr>Genome = -1, Fitness = Fin (-1)\<rparr>, Age := 6, Generations := 1\<rparr>"

definition demo_ga2 :: "(int, int) GA" where
  "demo_ga2 = demo_ga\<lparr>Populations := [demo_pop [-1, 0, 2] 10 2 0 3, demo_pop [-2, -1, 1] 10 2 1 5],
      Best := \<lparr>Genome = -2, Fitness = Fin (-2)\<rparr>, Age := 12, Generations := 2, rng := 1\<rparr>"

text \<open>
  \<open>demo_ga1r\<close> is \<open>demo_ga1\<close> after a second \<open>Initialize\<close>, and \<open>demo_ga2r\<close> the
  GA after the \<open>Enhance\<close> that follows.
\<close>

definition demo_ga1r :: "(int, int) GA" where
  "demo_ga1r = demo_ga0\<lparr>Age := 6, Generations := 1\<rparr>"

definition demo_ga2r :: "(int, int) GA" where
  "demo_ga2r = demo_ga\<lparr>Populations := [demo_pop [0, 1, 3] 5 1 0 3, demo_pop [-1, 0, 2] 5 1 1 5],
      Best := \<lparr>Genome = -1, Fitness = Fin (-1)\<rparr>, Age := 12, Generations := 2, rng := 1\<rparr>"

text \<open>
  \<open>demo_gaS\<close> is \<open>demo_ga0\<close> with two species, and \<open>demo_gaS1\<close> the GA after its
  \<open>Enhance\<close>.
\<close>

definition demo_gaS :: "(int, int) GA" where
  "demo_gaS = demo_ga0\<lparr>Topology := \<lparr>NPopulations = 2, NSpecies = 2, NIndividuals = 3\<rparr>\<rparr>"

definition demo_gaS1 :: "(int, int) GA" where
  "demo_gaS1 = demo_ga1\<lparr>Topology := \<lparr>NPopulations = 2, NSpecies = 2, NIndividuals = 3\<rparr>\<rparr>"

section \<open>Loops\<close>

lemma forEach_Inr:
  "forEach f xs = Inr ys \<Longrightarrow> list_all2 (\<lambda>x y. f x = Inr y) xs ys"
  by (induction xs arbitrary: ys) (auto split: sum.splits)

lemma forEach_map:
  "(\<And>x. x \<in> set xs \<Longrightarrow> f x = Inr (g x)) \<Longrightarrow> forEach f xs = Inr (map g xs)"
  by (induction xs) auto

lemma findBest_loop_le:
  "findBest_loop b pops = Inr b' \<Longrightarrow> b' = b \<or> Fitness b' < Fitness b"
  by (induction b pops rule: findBest_loop.induct) (auto split: list.splits if_splits)

lemma findBest_loop_le':
  "findBest_loop b pops = Inr b' \<Longrightarrow> Fitness b' \<le> Fitness b"
  using findBest_loop_le [of b pops b'] by auto

lemma findBest_loop_mem:
  "findBest_loop b pops = Inr b' \<Longrightarrow> b' = b \<or> b' \<in> set (firsts pops)"
  by (induction b pops rule: findBest_loop.induct)
    (auto simp: firsts_def split: list.splits if_splits)

lemma findBest_loop_lower:
  "findBest_loop b pops = Inr b' \<Longrightarrow> f \<in> set (firsts pops) \<Longrightarrow> Fitness b' \<le> Fitness f"
proof (induction b pops rule: findBest_loop.induct)
  case (1 gaBest)
  then show ?case by (simp add: firsts_def)
next
  case (2 gaBest pop pops)
  from "2.prems"(1) obtain best rest where
    pop: "Individuals pop = best # rest"
    by (auto split: list.splits)
  let ?b0 = "if Fitness best < Fitness gaBest then best else gaBest"
  from "2.prems"(1) pop have loop: "findBest_loop ?b0 pops = Inr b'"
    by simp
  from "2.prems"(2) pop have "f = best \<or> f \<in> set (firsts pops)"
    by (auto simp: firsts_def)
  then show ?case
  proof
    assume "f = best"
    moreover have "Fitness b' \<le> Fitness ?b0"
      using loop by (rule findBest_loop_le')
    moreover have "Fitness ?b0 \<le> Fitness best"
      by (simp add: not_less)
    ultimately show ?thesis by (metis order_trans)
  next
    assume "f \<in> set (firsts pops)"
    with "2.IH" [OF pop] loop show ?thesis by simp
  qed
qed

lemma findBest_loop_nonempty:
  "findBest_loop b pops = Inr b' \<Longrightarrow> pop \<in> set pops \<Longrightarrow> Individuals pop \<noteq> []"
  by (induction b pops rule: findBest_loop.induct) (auto split: list.splits if_splits)

lemma findBest_loop_returns:
  "(\<And>pop. pop \<in> set pops \<Longrightarrow> Individuals pop \<noteq> []) \<Longrightarrow> \<exists>b'. findBest_loop b pops = Inr b'"
  by (induction b pops rule: findBest_loop.induct) (auto split: list.splits if_splits)

lemma findBest_loop_keep:
  "findBest_loop b pops = Inr b' \<Longrightarrow>
   (\<And>f. f \<in> set (firsts pops) \<Longrightarrow> \<not> Fitness f < Fitness b) \<Longrightarrow> b' = b"
  by (induction b pops rule: findBest_loop.induct)
    (auto simp: firsts_def split: list.splits if_splits)

lemma findBest_loop_replace:
  "findBest_loop b pops = Inr b' \<Longrightarrow> f \<in> set (firsts pops) \<Longrightarrow> Fitness f < Fitness b \<Longrightarrow>
   b' \<in> set (firsts pops)"
  using findBest_loop_mem findBest_loop_lower
  by (metis leD)

section \<open>What a returning call went through\<close>

lemma Initialize_Inr:
  assumes "Initialize env seeds ga = Inr ga'"
  obtains pops gm b where
    "0 \<le> sint (NPopulations (Topology ga))"
    "forEach (Initialize_worker env seeds ga) [0 ..< nat (sint (NPopulations (Topology ga)))] = Inr pops"
    "MakeGenome ga = Some gm"
    "findBest_loop (MakeIndividual env (fst (gm (bestSeed seeds)))) pops = Inr b"
    "ga' = ga\<lparr>Populations := pops, rng := gaSeed seeds, Best := b\<rparr>"
  using assms
  by (auto simp: Initialize_def findBest_def split: if_splits sum.splits option.splits)

lemma migrate_Inr:
  assumes "migrate ga = Inr (ga1, migs)"
  shows "ga1 = ga\<lparr>Populations := Populations ga1, rng := rng ga1\<rparr>"
    and "migs = (if 1 < sint (NPopulations (Topology ga)) \<and> Migrator ga \<noteq> None
                    \<and> go_rem (Generations ga) (MigFrequency ga) = 0
                 then [MigratorCall] else [])"
    and "migs = [] \<Longrightarrow> ga1 = ga"
  using assms
  by (auto simp: migrate_def split: if_splits option.splits prod.splits)

lemma Enhance_Inr:
  assumes "Enhance env clock ga = Inr (ga', tr)"
  obtains ga1 migs pops b where
    "migrate (ga\<lparr>Generations := Generations ga + 1\<rparr>) = Inr (ga1, migs)"
    "forEach (Enhance_worker env clock ga1) (enumerate 0 (Populations ga1)) = Inr pops"
    "findBest_loop (Best ga1) pops = Inr b"
    "ga' = ga1\<lparr>Populations := pops, Best := b, Age := Age ga1 + gaElapsed clock\<rparr>"
    "tr = migs @ map WorkerRun [0 ..< length pops]"
  using assms
  by (auto simp: Enhance_def findBest_def split: if_splits sum.splits option.splits prod.splits)

lemma makeIndividuals_Some:
  "\<exists>indis r'. makeIndividuals env n (Some f) r = Inr (indis, r') \<and> length indis = n"
proof (induction n arbitrary: r)
  case 0
  show ?case by simp
next
  case (Suc n)
  obtain genome r1 where f: "f r = (genome, r1)" by (cases "f r")
  from Suc [of r1] obtain indis r2 where
    "makeIndividuals env n (Some f) r1 = Inr (indis, r2)" "length indis = n" by blast
  with f show ?case by simp
qed

lemma makeIndividuals_length:
  "makeIndividuals env n gm r = Inr (indis, r') \<Longrightarrow> length indis = n"
  by (induction n arbitrary: r indis) (auto split: option.splits prod.splits sum.splits)

lemma Sort_sorted: "sorted (map Fitness (Sort indis))"
  by (simp add: Sort_def)

lemma Sort_set: "set (Sort indis) = set indis"
  by (simp add: Sort_def)

lemma Sort_length: "length (Sort indis) = length indis"
  by (simp add: Sort_def)

lemma Evaluate_length: "length (Evaluate env indis) = length indis"
  by (simp add: Evaluate_def)

lemma Evaluate_evaluated:
  "indi \<in> set (Evaluate env indis) \<Longrightarrow> Fitness indi = GenomeEvaluate env (Genome indi)"
  by (auto simp: Evaluate_def)

lemma Evaluate_genomes: "map Genome (Evaluate env indis) = map Genome indis"
  by (simp add: Evaluate_def)

lemma Initialize_worker_Inr:
  assumes "Initialize_worker env seeds ga j = Inr pop"
  obtains indis r where
    "makeIndividuals env (nat (sint (NIndividuals (Topology ga)))) (MakeGenome ga) (popSeed seeds j)
       = Inr (indis, r)"
    "pop = \<lparr>Individuals = Sort (Evaluate env indis), PopAge = 0, PopGenerations = 0,
            ID = of_nat j, PopRng = r\<rparr>"
  using assms
  by (auto simp: Initialize_worker_def makePopulation_def split: if_splits sum.splits prod.splits)

lemma Initialize_worker_returns:
  assumes "0 \<le> sint (NIndividuals (Topology ga))" "MakeGenome ga = Some gm"
  shows "\<exists>pop. Initialize_worker env seeds ga j = Inr pop"
proof -
  obtain indis r' where
    "makeIndividuals env (nat (sint (NIndividuals (Topology ga)))) (Some gm) (popSeed seeds j)
       = Inr (indis, r')"
    using makeIndividuals_Some [of env _ gm] by blast
  with assms show ?thesis
    by (simp add: Initialize_worker_def makePopulation_def)
qed

lemma forEach_returns:
  "(\<And>x. x \<in> set xs \<Longrightarrow> \<exists>y. f x = Inr y) \<Longrightarrow> \<exists>ys. forEach f xs = Inr ys"
proof (induction xs)
  case Nil
  show ?case by simp
next
  case (Cons x xs)
  then obtain y ys where "f x = Inr y" "forEach f xs = Inr ys"
    by (meson list.set_intros)
  then show ?case by simp
qed

lemma forEach_length: "forEach f xs = Inr ys \<Longrightarrow> length ys = length xs"
  by (drule forEach_Inr) (rule list_all2_lengthD [symmetric])

lemma forEach_all:
  assumes "forEach f xs = Inr ys" "y \<in> set ys"
  obtains x where "x \<in> set xs" "f x = Inr y"
proof -
  have l: "list_all2 (\<lambda>x y. f x = Inr y) xs ys"
    using assms(1) by (rule forEach_Inr)
  from assms(2) obtain i where i: "i < length ys" "ys ! i = y"
    by (auto simp: in_set_conv_nth)
  from l i have "f (xs ! i) = Inr y" "i < length xs"
    by (auto simp: list_all2_conv_all_nth)
  then show thesis
    using that [of "xs ! i"] by simp
qed

lemma Topology_Validate_None:
  "Topology_Validate topo = None \<Longrightarrow>
   1 \<le> sint (NPopulations topo) \<and> 0 \<le> sint (NSpecies topo) \<and> 1 \<le> sint (NIndividuals topo)"
  by (simp add: Topology_Validate_def split: if_splits)

lemma Initialize_worker_pop:
  assumes "Initialize_worker env seeds ga j = Inr pop"
  shows "length (Individuals pop) = nat (sint (NIndividuals (Topology ga)))"
    and "sorted (map Fitness (Individuals pop))"
    and "indi \<in> set (Individuals pop) \<Longrightarrow> Fitness indi = GenomeEvaluate env (Genome indi)"
    and "PopGenerations pop = 0"
proof -
  from assms obtain indis r where
    mk: "makeIndividuals env (nat (sint (NIndividuals (Topology ga)))) (MakeGenome ga)
           (popSeed seeds j) = Inr (indis, r)"
    and pop: "pop = \<lparr>Individuals = Sort (Evaluate env indis), PopAge = 0, PopGenerations = 0,
            ID = of_nat j, PopRng = r\<rparr>"
    by (rule Initialize_worker_Inr)
  from mk have "length indis = nat (sint (NIndividuals (Topology ga)))"
    by (rule makeIndividuals_length)
  then show "length (Individuals pop) = nat (sint (NIndividuals (Topology ga)))"
    by (simp add: pop Sort_length Evaluate_length)
  show "sorted (map Fitness (Individuals pop))"
    by (simp add: pop Sort_sorted)
  show "indi \<in> set (Individuals pop) \<Longrightarrow> Fitness indi = GenomeEvaluate env (Genome indi)"
    by (simp add: pop Sort_set Evaluate_evaluated)
  show "PopGenerations pop = 0"
    by (simp add: pop)
qed

lemma Initialize_returns:
  assumes "Topology_Validate (Topology ga) = None" "MakeGenome ga = Some gm"
  shows "\<exists>ga'. Initialize env seeds ga = Inr ga'"
proof -
  from assms(1) have n: "1 \<le> sint (NPopulations (Topology ga))"
    and k: "1 \<le> sint (NIndividuals (Topology ga))"
    using Topology_Validate_None by blast+
  have "\<exists>pops. forEach (Initialize_worker env seeds ga)
          [0 ..< nat (sint (NPopulations (Topology ga)))] = Inr pops"
  proof (rule forEach_returns)
    fix j
    show "\<exists>pop. Initialize_worker env seeds ga j = Inr pop"
      using k assms(2) by (intro Initialize_worker_returns) simp_all
  qed
  then obtain pops where pops: "forEach (Initialize_worker env seeds ga)
          [0 ..< nat (sint (NPopulations (Topology ga)))] = Inr pops" ..
  have "\<exists>b. findBest_loop (MakeIndividual env (fst (gm (bestSeed seeds)))) pops = Inr b"
  proof (rule findBest_loop_returns)
    fix pop
    assume "pop \<in> set pops"
    with pops obtain j where "Initialize_worker env seeds ga j = Inr pop"
      by (rule forEach_all)
    then have "length (Individuals pop) = nat (sint (NIndividuals (Topology ga)))"
      by (rule Initialize_worker_pop)
    with k show "Individuals pop \<noteq> []" by auto
  qed
  then obtain b where "findBest_loop (MakeIndividual env (fst (gm (bestSeed seeds)))) pops = Inr b" ..
  with pops n assms(2) show ?thesis
    by (simp add: Initialize_def findBest_def)
qed

lemma Initialize_populations:
  assumes "Initialize env seeds ga = Inr ga'" "pop \<in> set (Populations ga')"
  obtains j where "Initialize_worker env seeds ga j = Inr pop"
proof -
  from assms(1) obtain pops gm b where
    pops: "forEach (Initialize_worker env seeds ga)
            [0 ..< nat (sint (NPopulations (Topology ga)))] = Inr pops"
    and ga': "ga' = ga\<lparr>Populations := pops, rng := gaSeed seeds, Best := b\<rparr>"
    by (rule Initialize_Inr)
  from assms(2) ga' have "pop \<in> set pops" by simp
  with pops obtain j where "Initialize_worker env seeds ga j = Inr pop"
    by (rule forEach_all)
  then show thesis by (rule that)
qed

lemma Initialize_length:
  assumes "Initialize env seeds ga = Inr ga'"
  shows "length (Populations ga') = nat (sint (NPopulations (Topology ga)))"
proof -
  from assms obtain pops gm b where
    pops: "forEach (Initialize_worker env seeds ga)
            [0 ..< nat (sint (NPopulations (Topology ga)))] = Inr pops"
    and ga': "ga' = ga\<lparr>Populations := pops, rng := gaSeed seeds, Best := b\<rparr>"
    by (rule Initialize_Inr)
  from pops have "length pops = nat (sint (NPopulations (Topology ga)))"
    by (simp add: forEach_length)
  with ga' show ?thesis by simp
qed

section \<open>The example, evaluated\<close>

lemmas demo_defs = demo_MakeGenome_def demo_speciate_def demo_env_def demo_seeds_def demo_clock_def
  demo_model_def demo_migrator_def demo_ga_def demo_pop_def demo_ga0_def

lemma demo_Initialize: "Initialize demo_env demo_seeds demo_ga = Inr demo_ga0"
  by (simp add: demo_defs Initialize_def Initialize_worker_def makePopulation_def
      MakeIndividual_def Evaluate_def Sort_def findBest_def upt_rec numeral_3_eq_3 less_float64_def)

lemma demo_Enhance: "Enhance demo_env demo_clock demo_ga0 = Inr (demo_ga1, [WorkerRun 0, WorkerRun 1])"
  by (simp add: demo_defs demo_ga1_def Enhance_def migrate_def go_rem_def Enhance_worker_def evolve_def
      applyModel_def signed_modulo_int_def
      Evaluate_def Sort_def findBest_def upt_rec less_float64_def)


lemma demo_Enhance2:
  "Enhance demo_env demo_clock demo_ga1 = Inr (demo_ga2, [MigratorCall, WorkerRun 0, WorkerRun 1])"
  by (simp add: demo_defs demo_ga1_def demo_ga2_def Enhance_def migrate_def go_rem_def Enhance_worker_def evolve_def
      applyModel_def signed_modulo_int_def
      Evaluate_def Sort_def findBest_def upt_rec less_float64_def)

lemma demo_Enhances:
  "Enhances demo_env [demo_clock, demo_clock] demo_ga0 = Inr demo_ga2"
  by (simp add: demo_Enhance demo_Enhance2)

section \<open>Initialize\<close>

text \<open>
  C3. For every valid topology (and a genome factory that is not nil), \<open>Initialize\<close>
  returns, and it leaves exactly \<open>NPopulations\<close> populations of exactly
  \<open>NIndividuals\<close> individuals each, every individual carrying the fitness of its genome.
\<close>

theorem Initialize_produces_evaluated_populations:
  assumes "Topology_Validate (Topology ga) = None" and "MakeGenome ga \<noteq> None"
  shows "\<exists>ga'. Initialize env seeds ga = Inr ga'
           \<and> length (Populations ga') = nat (sint (NPopulations (Topology ga)))
           \<and> (\<forall>pop \<in> set (Populations ga').
                 length (Individuals pop) = nat (sint (NIndividuals (Topology ga)))
                 \<and> (\<forall>indi \<in> set (Individuals pop).
                      Fitness indi = GenomeEvaluate env (Genome indi)))"
proof -
  from assms(2) obtain gm where "MakeGenome ga = Some gm" by auto
  with assms(1) obtain ga' where init: "Initialize env seeds ga = Inr ga'"
    using Initialize_returns by blast
  have "length (Individuals pop) = nat (sint (NIndividuals (Topology ga)))
          \<and> (\<forall>indi \<in> set (Individuals pop). Fitness indi = GenomeEvaluate env (Genome indi))"
    if "pop \<in> set (Populations ga')" for pop
  proof -
    from init that obtain j where "Initialize_worker env seeds ga j = Inr pop"
      by (rule Initialize_populations)
    then show ?thesis
      using Initialize_worker_pop(1,3) by blast
  qed
  with init Initialize_length [OF init] show ?thesis by blast
qed


theorem Initialize_produces_evaluated_populations_witness:
  "\<exists>ga'. Initialize demo_env demo_seeds demo_ga = Inr ga'
      \<and> length (Populations ga') = 2
      \<and> (\<forall>pop \<in> set (Populations ga').
            length (Individuals pop) = 3
            \<and> (\<forall>indi \<in> set (Individuals pop). Fitness indi = Fin (of_int (Genome indi))))"
  using Initialize_produces_evaluated_populations [of demo_ga demo_env demo_seeds]
  by (simp add: demo_ga_def demo_env_def Topology_Validate_def)

section \<open>Validation of the configuration\<close>

text \<open>
  C6. \<open>Topology.Validate\<close> returns an error, and never panics, exactly when
  \<open>NPopulations < 1\<close>, \<open>NSpecies < 0\<close> or \<open>NIndividuals < 1\<close>. It rejects the
  topology with no population, no species and one individual, and accepts the topology
  with one population, no species and one individual: zero species is legal.
\<close>

theorem Topology_Validate_rejects_iff:
  "(Topology_Validate topo \<noteq> None) =
     (sint (NPopulations topo) < 1 \<or> sint (NSpecies topo) < 0 \<or> sint (NIndividuals topo) < 1)
   \<and> Topology_Validate \<lparr>NPopulations = 0, NSpecies = 0, NIndividuals = 1\<rparr> \<noteq> None
   \<and> Topology_Validate \<lparr>NPopulations = 1, NSpecies = 0, NIndividuals = 1\<rparr> = None"
  by (simp add: Topology_Validate_def)

text \<open>
  C7. \<open>GA.Validate\<close> checks in a fixed order and returns the error of the first check
  that fails: the genome factory is not nil, the topology validates, the model is not
  nil, the model validates, and a configured migrator comes with a migration frequency
  of at least 1. It returns nil when every check passes, and it rejects every
  configuration that has a migrator and the migration frequency 0.
\<close>

theorem GA_Validate_first_violation:
  "GA_Validate ga =
     (if MakeGenome ga = None then Some (ErrorsNew '''GenomeMaker' cannot be nil'')
      else if Topology_Validate (Topology ga) \<noteq> None then Topology_Validate (Topology ga)
      else if Model ga = None then Some (ErrorsNew '''Model' cannot be nil'')
      else if Option.bind (Model ga) ModelValidate \<noteq> None
        then Option.bind (Model ga) ModelValidate
      else if Migrator ga \<noteq> None \<and> sint (MigFrequency ga) < 1
        then Some (ErrorsNew '''MigFrequency' should be strictly higher than 0'')
      else None)
   \<and> GA_Validate (ga\<lparr>Migrator := Some mig, MigFrequency := 0\<rparr>) \<noteq> None"
  by (auto simp: GA_Validate_def split: option.splits)

section \<open>Enhance\<close>

lemma migrate_frame:
  assumes "migrate ga = Inr (ga1, migs)"
  obtains pops r where "ga1 = ga\<lparr>Populations := pops, rng := r\<rparr>"
proof -
  from assms have "ga1 = ga\<lparr>Populations := Populations ga1, rng := rng ga1\<rparr>"
    by (rule migrate_Inr(1))
  then show thesis by (rule that)
qed

lemma Enhance_worker_Inr:
  assumes "Enhance_worker env clock ga (j, pop) = Inr pop'"
  obtains pop1 where
    "evolve env ga pop = Inr pop1"
    "pop' = pop1\<lparr>Individuals := Sort (Evaluate env (Individuals pop1)),
                  PopAge := PopAge pop1 + popElapsed clock j,
                  PopGenerations := PopGenerations pop1 + 1\<rparr>"
  using assms by (auto simp: Enhance_worker_def split: sum.splits)

lemma Enhance_populations:
  assumes "Enhance env clock ga = Inr (ga', tr)" "pop' \<in> set (Populations ga')"
  obtains ga1 migs j pop where
    "migrate (ga\<lparr>Generations := Generations ga + 1\<rparr>) = Inr (ga1, migs)"
    "Enhance_worker env clock ga1 (j, pop) = Inr pop'"
proof -
  from assms(1) obtain ga1 migs pops b where
    m: "migrate (ga\<lparr>Generations := Generations ga + 1\<rparr>) = Inr (ga1, migs)"
    and w: "forEach (Enhance_worker env clock ga1) (enumerate 0 (Populations ga1)) = Inr pops"
    and ga': "ga' = ga1\<lparr>Populations := pops, Best := b, Age := Age ga1 + gaElapsed clock\<rparr>"
    by (rule Enhance_Inr)
  from assms(2) ga' have "pop' \<in> set pops" by simp
  with w obtain jp where "Enhance_worker env clock ga1 jp = Inr pop'"
    by (rule forEach_all)
  with m show thesis
    using that [of ga1 migs "fst jp" "snd jp"] by simp
qed

lemma Enhance_Best:
  assumes "Enhance env clock ga = Inr (ga', tr)"
  shows "findBest_loop (Best ga) (Populations ga') = Inr (Best ga')"
proof -
  from assms obtain ga1 migs pops b where
    m: "migrate (ga\<lparr>Generations := Generations ga + 1\<rparr>) = Inr (ga1, migs)"
    and f: "findBest_loop (Best ga1) pops = Inr b"
    and ga': "ga' = ga1\<lparr>Populations := pops, Best := b, Age := Age ga1 + gaElapsed clock\<rparr>"
    by (rule Enhance_Inr)
  from m obtain ps r where "ga1 = ga\<lparr>Generations := Generations ga + 1, Populations := ps, rng := r\<rparr>"
    by (rule migrate_frame)
  then have "Best ga1 = Best ga" by simp
  with f ga' show ?thesis by simp
qed

lemma Enhances_Best_le:
  "Enhances env clocks ga = Inr ga' \<Longrightarrow> Fitness (Best ga') \<le> Fitness (Best ga)"
proof (induction clocks arbitrary: ga)
  case Nil
  then show ?case by simp
next
  case (Cons clock clocks)
  from Cons.prems obtain ga1 tr where
    step: "Enhance env clock ga = Inr (ga1, tr)" and rest: "Enhances env clocks ga1 = Inr ga'"
    by (auto split: sum.splits)
  from step have "findBest_loop (Best ga) (Populations ga1) = Inr (Best ga1)"
    by (rule Enhance_Best)
  then have "Fitness (Best ga1) \<le> Fitness (Best ga)"
    by (rule findBest_loop_le')
  moreover from rest have "Fitness (Best ga') \<le> Fitness (Best ga1)"
    by (rule Cons.IH)
  ultimately show ?case by (rule order_trans [rotated])
qed

text \<open>
  C2. From one \<open>Enhance\<close> call to the next the fitness of \<open>Best\<close> never
  increases (lower is better), and \<open>Best\<close> only changes to an individual of strictly
  lower fitness, the first individual of a population; so over every sequence of
  \<open>Enhance\<close> calls that returns, the fitness of \<open>Best\<close> at the end is at most the one
  at the start.
\<close>

theorem Best_fitness_never_increases:
  "(\<forall>clock ga' tr. Enhance env clock ga = Inr (ga', tr) \<longrightarrow>
      Fitness (Best ga') \<le> Fitness (Best ga)
      \<and> (Best ga' \<noteq> Best ga \<longrightarrow>
           Fitness (Best ga') < Fitness (Best ga) \<and> Best ga' \<in> set (firsts (Populations ga'))))
   \<and> (\<forall>clocks ga'. Enhances env clocks ga = Inr ga' \<longrightarrow> Fitness (Best ga') \<le> Fitness (Best ga))"
proof (intro conjI allI impI)
  fix clock ga' tr
  assume "Enhance env clock ga = Inr (ga', tr)"
  then have loop: "findBest_loop (Best ga) (Populations ga') = Inr (Best ga')"
    by (rule Enhance_Best)
  then show "Fitness (Best ga') \<le> Fitness (Best ga)"
    by (rule findBest_loop_le')
  assume "Best ga' \<noteq> Best ga"
  with findBest_loop_le [OF loop] show "Fitness (Best ga') < Fitness (Best ga)"
    by simp
  from \<open>Best ga' \<noteq> Best ga\<close> findBest_loop_mem [OF loop]
  show "Best ga' \<in> set (firsts (Populations ga'))"
    by simp
next
  fix clocks ga'
  assume "Enhances env clocks ga = Inr ga'"
  then show "Fitness (Best ga') \<le> Fitness (Best ga)"
    by (rule Enhances_Best_le)
qed

theorem Best_fitness_never_increases_witness:
  "Enhance demo_env demo_clock demo_ga0 = Inr (demo_ga1, [WorkerRun 0, WorkerRun 1])
   \<and> Fitness (Best demo_ga1) < Fitness (Best demo_ga0)
   \<and> Best demo_ga1 \<in> set (firsts (Populations demo_ga1))
   \<and> Enhances demo_env [demo_clock, demo_clock] demo_ga0 = Inr demo_ga2
   \<and> Fitness (Best demo_ga2) \<le> Fitness (Best demo_ga0)"
proof -
  have "Best demo_ga1 \<noteq> Best demo_ga0"
    by (simp add: demo_ga1_def demo_ga0_def)
  with Best_fitness_never_increases [of demo_env demo_ga0] demo_Enhance demo_Enhances
  show ?thesis by blast
qed

lemma sorted_Fitness_adjacent:
  assumes "sorted (map Fitness indis)" "Suc i < length indis"
  shows "Fitness (indis ! i) \<le> Fitness (indis ! Suc i)"
proof -
  from assms have "map Fitness indis ! i \<le> map Fitness indis ! Suc i"
    by (intro sorted_nth_mono) simp_all
  with assms(2) show ?thesis by simp
qed

lemma sorted_Fitness_first:
  assumes "sorted (map Fitness indis)" "indi \<in> set indis"
  shows "Fitness (indis ! 0) \<le> Fitness indi"
proof -
  from assms(2) obtain k where k: "k < length indis" "indis ! k = indi"
    by (auto simp: in_set_conv_nth)
  with assms(1) have "map Fitness indis ! 0 \<le> map Fitness indis ! k"
    by (intro sorted_nth_mono) simp_all
  moreover from k have "0 < length indis" by (cases indis) simp_all
  ultimately show ?thesis using k by simp
qed

lemma Enhance_worker_sorted:
  assumes "Enhance_worker env clock ga (j, pop) = Inr pop'"
  shows "sorted (map Fitness (Individuals pop'))"
    and "indi \<in> set (Individuals pop') \<Longrightarrow> Fitness indi = GenomeEvaluate env (Genome indi)"
proof -
  from assms obtain pop1 where
    pop': "pop' = pop1\<lparr>Individuals := Sort (Evaluate env (Individuals pop1)),
                  PopAge := PopAge pop1 + popElapsed clock j,
                  PopGenerations := PopGenerations pop1 + 1\<rparr>"
    by (rule Enhance_worker_Inr)
  show "sorted (map Fitness (Individuals pop'))"
    by (simp add: pop' Sort_sorted)
  show "indi \<in> set (Individuals pop') \<Longrightarrow> Fitness indi = GenomeEvaluate env (Genome indi)"
    by (simp add: pop' Sort_set Evaluate_evaluated)
qed

lemma Initialize_sorted:
  assumes "Initialize env seeds ga = Inr ga'" "pop \<in> set (Populations ga')"
  shows "sorted (map Fitness (Individuals pop))"
proof -
  from assms obtain j where "Initialize_worker env seeds ga j = Inr pop"
    by (rule Initialize_populations)
  then show ?thesis by (rule Initialize_worker_pop)
qed

lemma Enhance_sorted:
  assumes "Enhance env clock ga = Inr (ga', tr)" "pop \<in> set (Populations ga')"
  shows "sorted (map Fitness (Individuals pop))"
proof -
  from assms obtain ga1 j pop0 where "Enhance_worker env clock ga1 (j, pop0) = Inr pop"
    by (rule Enhance_populations)
  then show ?thesis by (rule Enhance_worker_sorted)
qed

text \<open>
  C4. After \<open>Initialize\<close> returns and after \<open>Enhance\<close> returns, the individuals of
  every population are in ascending order of fitness: each individual's fitness is at
  most its successor's, and the individual at index 0 has the least fitness.
\<close>

theorem populations_sorted_by_fitness:
  "(\<forall>ga'. Initialize env seeds ga = Inr ga' \<longrightarrow>
      (\<forall>pop \<in> set (Populations ga').
         sorted (map Fitness (Individuals pop))
         \<and> (\<forall>i. Suc i < length (Individuals pop) \<longrightarrow>
               Fitness (Individuals pop ! i) \<le> Fitness (Individuals pop ! Suc i))
         \<and> (\<forall>indi \<in> set (Individuals pop). Fitness (Individuals pop ! 0) \<le> Fitness indi)))
   \<and> (\<forall>ga' tr. Enhance env clock ga = Inr (ga', tr) \<longrightarrow>
      (\<forall>pop \<in> set (Populations ga').
         sorted (map Fitness (Individuals pop))
         \<and> (\<forall>i. Suc i < length (Individuals pop) \<longrightarrow>
               Fitness (Individuals pop ! i) \<le> Fitness (Individuals pop ! Suc i))
         \<and> (\<forall>indi \<in> set (Individuals pop). Fitness (Individuals pop ! 0) \<le> Fitness indi)))"
proof (intro conjI allI impI ballI)
  fix ga' pop
  assume "Initialize env seeds ga = Inr ga'" "pop \<in> set (Populations ga')"
  then have s: "sorted (map Fitness (Individuals pop))"
    by (rule Initialize_sorted)
  then show "sorted (map Fitness (Individuals pop))" .
  show "Fitness (Individuals pop ! i) \<le> Fitness (Individuals pop ! Suc i)"
    if "Suc i < length (Individuals pop)" for i
    using s that by (rule sorted_Fitness_adjacent)
  show "Fitness (Individuals pop ! 0) \<le> Fitness indi" if "indi \<in> set (Individuals pop)" for indi
    using s that by (rule sorted_Fitness_first)
next
  fix ga' tr pop
  assume "Enhance env clock ga = Inr (ga', tr)" "pop \<in> set (Populations ga')"
  then have s: "sorted (map Fitness (Individuals pop))"
    by (rule Enhance_sorted)
  then show "sorted (map Fitness (Individuals pop))" .
  show "Fitness (Individuals pop ! i) \<le> Fitness (Individuals pop ! Suc i)"
    if "Suc i < length (Individuals pop)" for i
    using s that by (rule sorted_Fitness_adjacent)
  show "Fitness (Individuals pop ! 0) \<le> Fitness indi" if "indi \<in> set (Individuals pop)" for indi
    using s that by (rule sorted_Fitness_first)
qed

theorem populations_sorted_by_fitness_witness:
  "Initialize demo_env demo_seeds demo_ga = Inr demo_ga0
   \<and> list_all (\<lambda>pop. sorted (map Fitness (Individuals pop))) (Populations demo_ga0)
   \<and> demo_pop [0, 1, 3] 0 0 0 3 \<in> set (Populations demo_ga0)
   \<and> Suc 0 < length (Individuals (demo_pop [0, 1, 3] 0 0 0 3))
   \<and> Fitness (Individuals (demo_pop [0, 1, 3] 0 0 0 3) ! 0)
       \<le> Fitness (Individuals (demo_pop [0, 1, 3] 0 0 0 3) ! Suc 0)
   \<and> Enhance demo_env demo_clock demo_ga1 = Inr (demo_ga2, [MigratorCall, WorkerRun 0, WorkerRun 1])
   \<and> list_all (\<lambda>pop. sorted (map Fitness (Individuals pop))) (Populations demo_ga2)"
proof -
  let ?pop = "demo_pop [0, 1, 3] 0 0 0 3"
  have pop: "?pop \<in> set (Populations demo_ga0)"
    by (simp add: demo_ga0_def)
  have len: "Suc 0 < length (Individuals ?pop)"
    by (simp add: demo_pop_def)
  from populations_sorted_by_fitness [of demo_env demo_seeds demo_ga demo_clock] demo_Initialize
  have init: "\<forall>pop \<in> set (Populations demo_ga0).
         sorted (map Fitness (Individuals pop))
         \<and> (\<forall>i. Suc i < length (Individuals pop) \<longrightarrow>
               Fitness (Individuals pop ! i) \<le> Fitness (Individuals pop ! Suc i))"
    by blast
  from init pop len
  have adjacent: "Fitness (Individuals ?pop ! 0) \<le> Fitness (Individuals ?pop ! Suc 0)"
    by blast
  from populations_sorted_by_fitness [of demo_env demo_seeds demo_ga1 demo_clock] demo_Enhance2
  have enh: "\<forall>pop \<in> set (Populations demo_ga2). sorted (map Fitness (Individuals pop))"
    by blast
  from init enh pop len adjacent demo_Initialize demo_Enhance2 show ?thesis
    by (simp add: list_all_iff)
qed








lemma Enhance_Generations:
  assumes "Enhance env clock ga = Inr (ga', tr)"
  shows "Generations ga' = Generations ga + 1"
proof -
  from assms obtain ga1 migs pops b where
    m: "migrate (ga\<lparr>Generations := Generations ga + 1\<rparr>) = Inr (ga1, migs)"
    and ga': "ga' = ga1\<lparr>Populations := pops, Best := b, Age := Age ga1 + gaElapsed clock\<rparr>"
    by (rule Enhance_Inr)
  from m obtain ps r where
    "ga1 = ga\<lparr>Generations := Generations ga + 1, Populations := ps, rng := r\<rparr>"
    by (rule migrate_frame)
  with ga' show ?thesis by simp
qed

lemma Enhance_trace:
  assumes "Enhance env clock ga = Inr (ga', tr)"
  shows "tr = (if 1 < sint (NPopulations (Topology ga)) \<and> Migrator ga \<noteq> None
                    \<and> go_rem (Generations ga + 1) (MigFrequency ga) = 0
               then [MigratorCall] else [])
              @ map WorkerRun [0 ..< length (Populations ga')]"
proof -
  from assms obtain ga1 migs pops b where
    m: "migrate (ga\<lparr>Generations := Generations ga + 1\<rparr>) = Inr (ga1, migs)"
    and ga': "ga' = ga1\<lparr>Populations := pops, Best := b, Age := Age ga1 + gaElapsed clock\<rparr>"
    and tr: "tr = migs @ map WorkerRun [0 ..< length pops]"
    by (rule Enhance_Inr)
  from migrate_Inr(2) [OF m] tr ga' show ?thesis by simp
qed



section \<open>Initialize again\<close>

lemma demo_Initialize_again: "Initialize demo_env demo_seeds demo_ga1 = Inr demo_ga1r"
  by (simp add: demo_defs demo_ga1_def demo_ga1r_def Initialize_def Initialize_worker_def
      makePopulation_def MakeIndividual_def Evaluate_def Sort_def findBest_def upt_rec
      numeral_3_eq_3 less_float64_def)

lemma demo_Enhance_again:
  "Enhance demo_env demo_clock demo_ga1r = Inr (demo_ga2r, [MigratorCall, WorkerRun 0, WorkerRun 1])"
  by (simp add: demo_defs demo_ga1r_def demo_ga2r_def Enhance_def migrate_def go_rem_def
      Enhance_worker_def evolve_def applyModel_def signed_modulo_int_def
      Evaluate_def Sort_def findBest_def upt_rec less_float64_def)

lemma Initialize_frame:
  assumes "Initialize env seeds ga = Inr ga'"
  shows "ga' = ga\<lparr>Populations := Populations ga', Best := Best ga', rng := rng ga'\<rparr>"
proof -
  from assms obtain pops gm b where
    "ga' = ga\<lparr>Populations := pops, rng := gaSeed seeds, Best := b\<rparr>"
    by (rule Initialize_Inr)
  then show ?thesis by simp
qed

lemma Enhance_frame:
  assumes "Enhance env clock ga = Inr (ga', tr)"
  obtains pops b r where
    "ga' = ga\<lparr>Generations := Generations ga + 1, Populations := pops, rng := r, Best := b,
               Age := Age ga + gaElapsed clock\<rparr>"
proof -
  from assms obtain ga1 migs pops b where
    m: "migrate (ga\<lparr>Generations := Generations ga + 1\<rparr>) = Inr (ga1, migs)"
    and ga': "ga' = ga1\<lparr>Populations := pops, Best := b, Age := Age ga1 + gaElapsed clock\<rparr>"
    by (rule Enhance_Inr)
  from m obtain ps r where
    "ga1 = ga\<lparr>Generations := Generations ga + 1, Populations := ps, rng := r\<rparr>"
    by (rule migrate_frame)
  with ga' have "ga' = ga\<lparr>Generations := Generations ga + 1, Populations := pops, rng := r, Best := b,
               Age := Age ga + gaElapsed clock\<rparr>"
    by simp
  then show thesis by (rule that)
qed

text \<open>
  C10. \<open>Initialize\<close> writes the fields \<open>Populations\<close>, \<open>Best\<close> and \<open>rng\<close> and
  no other: \<open>Generations\<close> and \<open>Age\<close> keep their values. So the next \<open>Enhance\<close>
  counts on from the old counter, and gates the migration on it, not on zero.
\<close>

theorem Initialize_keeps_Generations_and_Age:
  assumes "Initialize env seeds ga = Inr ga0"
  shows "ga0 = ga\<lparr>Populations := Populations ga0, Best := Best ga0, rng := rng ga0\<rparr>
    \<and> Generations ga0 = Generations ga \<and> Age ga0 = Age ga
    \<and> (\<forall>clock ga1 tr. Enhance env clock ga0 = Inr (ga1, tr) \<longrightarrow>
          Generations ga1 = Generations ga + 1
          \<and> (MigratorCall \<in> set tr) =
              (1 < sint (NPopulations (Topology ga)) \<and> Migrator ga \<noteq> None
               \<and> go_rem (Generations ga + 1) (MigFrequency ga) = 0))"
proof -
  have frame: "ga0 = ga\<lparr>Populations := Populations ga0, Best := Best ga0, rng := rng ga0\<rparr>"
    using assms by (rule Initialize_frame)
  have g: "Generations ga0 = Generations ga"
    by (subst frame) simp
  have a: "Age ga0 = Age ga"
    by (subst frame) simp
  have t: "Topology ga0 = Topology ga"
    by (subst frame) simp
  have m: "Migrator ga0 = Migrator ga"
    by (subst frame) simp
  have f: "MigFrequency ga0 = MigFrequency ga"
    by (subst frame) simp
  have step: "Generations ga1 = Generations ga + 1
          \<and> (MigratorCall \<in> set tr) =
              (1 < sint (NPopulations (Topology ga)) \<and> Migrator ga \<noteq> None
               \<and> go_rem (Generations ga + 1) (MigFrequency ga) = 0)"
    if e: "Enhance env clock ga0 = Inr (ga1, tr)" for clock ga1 tr
  proof -
    from Enhance_Generations [OF e] g have g1: "Generations ga1 = Generations ga + 1"
      by simp
    from Enhance_trace [OF e] have
      "(MigratorCall \<in> set tr) =
         (1 < sint (NPopulations (Topology ga0)) \<and> Migrator ga0 \<noteq> None
          \<and> go_rem (Generations ga0 + 1) (MigFrequency ga0) = 0)"
      by auto
    with g1 show ?thesis by (simp only: g t m f) 
  qed
  from frame g a step show ?thesis by blast
qed


theorem Initialize_keeps_Generations_and_Age_witness:
  "Initialize demo_env demo_seeds demo_ga1 = Inr demo_ga1r
   \<and> Generations demo_ga1 = 1 \<and> Generations demo_ga1r = 1
   \<and> Age demo_ga1 = 6 \<and> Age demo_ga1r = 6
   \<and> Enhance demo_env demo_clock demo_ga1r = Inr (demo_ga2r, [MigratorCall, WorkerRun 0, WorkerRun 1])
   \<and> Generations demo_ga2r = 2
   \<and> MigratorCall \<in> set [MigratorCall, WorkerRun 0, WorkerRun 1]"
proof -
  note frame = Initialize_keeps_Generations_and_Age [OF demo_Initialize_again]
  from frame have "Generations demo_ga1r = Generations demo_ga1" "Age demo_ga1r = Age demo_ga1"
    by simp_all
  moreover from frame demo_Enhance_again have "Generations demo_ga2r = Generations demo_ga1 + 1"
    by blast
  moreover have "Generations demo_ga1 = 1" "Age demo_ga1 = 6"
    by (simp_all add: demo_ga1_def)
  ultimately show ?thesis
    using demo_Initialize_again demo_Enhance_again by simp
qed

section \<open>Generation counters\<close>

lemma forEach_map_eq:
  "forEach f xs = Inr ys \<Longrightarrow> (\<And>x y. x \<in> set xs \<Longrightarrow> f x = Inr y \<Longrightarrow> h y = k x) \<Longrightarrow>
   map h ys = map k xs"
proof (induction xs arbitrary: ys)
  case Nil
  then show ?case by simp
next
  case (Cons x xs)
  from Cons.prems(1) obtain y ys' where
    y: "f x = Inr y" and ys': "forEach f xs = Inr ys'" and ys: "ys = y # ys'"
    by (auto split: sum.splits)
  from ys' have "map h ys' = map k xs"
    by (rule Cons.IH) (simp add: Cons.prems(2))
  moreover from y have "h y = k x"
    by (intro Cons.prems(2)) simp_all
  ultimately show ?case by (simp add: ys)
qed

lemma map_snd_enumerate_fun:
  "map (\<lambda>jp. h (snd jp)) (enumerate n xs) = map h xs"
  by (induction xs arbitrary: n) simp_all

lemma evolve_PopGenerations:
  assumes "\<And>m pop. Model ga = Some m \<Longrightarrow> PopGenerations (ModelApply m pop) = PopGenerations pop"
    and "evolve env ga pop = Inr pop1"
  shows "PopGenerations pop1 = PopGenerations pop"
proof (cases "0 < sint (NSpecies (Topology ga))")
  case True
  with assms(2) show ?thesis
    by (auto simp: evolve_def split: sum.splits)
next
  case False
  with assms(2) obtain m where "Model ga = Some m" "pop1 = ModelApply m pop"
    by (auto simp: evolve_def applyModel_def split: option.splits)
  with assms(1) show ?thesis by simp
qed

lemma Enhance_worker_PopGenerations:
  assumes "\<And>m pop. Model ga = Some m \<Longrightarrow> PopGenerations (ModelApply m pop) = PopGenerations pop"
    and "Enhance_worker env clock ga (j, pop) = Inr pop'"
  shows "PopGenerations pop' = PopGenerations pop + 1"
proof -
  from assms(2) obtain pop1 where
    e: "evolve env ga pop = Inr pop1"
    and pop': "pop' = pop1\<lparr>Individuals := Sort (Evaluate env (Individuals pop1)),
                  PopAge := PopAge pop1 + popElapsed clock j,
                  PopGenerations := PopGenerations pop1 + 1\<rparr>"
    by (rule Enhance_worker_Inr)
  from assms(1) e have "PopGenerations pop1 = PopGenerations pop"
    by (rule evolve_PopGenerations)
  with pop' show ?thesis by simp
qed

lemma migrate_PopGenerations:
  assumes "\<And>mig pops r. Migrator ga = Some mig \<Longrightarrow>
             map PopGenerations (fst (MigratorApply mig pops r)) = map PopGenerations pops"
    and "migrate ga = Inr (ga1, migs)"
  shows "map PopGenerations (Populations ga1) = map PopGenerations (Populations ga)"
proof (cases "migs = []")
  case True
  with assms(2) have "ga1 = ga" by (intro migrate_Inr(3))
  then show ?thesis by simp
next
  case False
  with assms(2) obtain mig where
    mig: "Migrator ga = Some mig"
    and "Populations ga1 = fst (MigratorApply mig (Populations ga) (rng ga))"
    by (auto simp: migrate_def split: if_splits option.splits prod.splits)
  with assms(1) [OF mig] show ?thesis by simp
qed

lemma Enhance_PopGenerations:
  assumes model: "\<And>m pop. Model ga = Some m \<Longrightarrow>
                    PopGenerations (ModelApply m pop) = PopGenerations pop"
    and migrator: "\<And>mig pops r. Migrator ga = Some mig \<Longrightarrow>
             map PopGenerations (fst (MigratorApply mig pops r)) = map PopGenerations pops"
    and e: "Enhance env clock ga = Inr (ga', tr)"
  shows "map PopGenerations (Populations ga') = map (\<lambda>pop. PopGenerations pop + 1) (Populations ga)"
proof -
  let ?ga = "ga\<lparr>Generations := Generations ga + 1\<rparr>"
  from e obtain ga1 migs pops b where
    m: "migrate ?ga = Inr (ga1, migs)"
    and w: "forEach (Enhance_worker env clock ga1) (enumerate 0 (Populations ga1)) = Inr pops"
    and ga': "ga' = ga1\<lparr>Populations := pops, Best := b, Age := Age ga1 + gaElapsed clock\<rparr>"
    by (rule Enhance_Inr)
  from m obtain ps r where ga1: "ga1 = ?ga\<lparr>Populations := ps, rng := r\<rparr>"
    by (rule migrate_frame)
  then have model1: "Model ga1 = Model ga" by simp
  have "map PopGenerations (Populations ga1) = map PopGenerations (Populations ?ga)"
    using m by (intro migrate_PopGenerations [where ga = ?ga]) (simp_all add: migrator)
  then have mig: "map PopGenerations (Populations ga1) = map PopGenerations (Populations ga)"
    by simp
  have "map PopGenerations pops
          = map (\<lambda>jp. PopGenerations (snd jp) + 1) (enumerate 0 (Populations ga1))"
    using w
  proof (rule forEach_map_eq)
    fix jp pop'
    assume "Enhance_worker env clock ga1 jp = Inr pop'"
    then have jp: "Enhance_worker env clock ga1 (fst jp, snd jp) = Inr pop'" by simp
    have "PopGenerations (ModelApply m pop) = PopGenerations pop" if "Model ga1 = Some m" for m pop
      using that by (simp add: model1 model)
    then show "PopGenerations pop' = PopGenerations (snd jp) + 1"
      using jp by (rule Enhance_worker_PopGenerations)
  qed
  also have "\<dots> = map (\<lambda>pop. PopGenerations pop + 1) (Populations ga1)"
    by (rule map_snd_enumerate_fun)
  also have "\<dots> = map (\<lambda>g. g + 1) (map PopGenerations (Populations ga1))"
    by (simp add: comp_def)
  also have "\<dots> = map (\<lambda>g. g + 1) (map PopGenerations (Populations ga))"
    by (simp only: mig)
  also have "\<dots> = map (\<lambda>pop. PopGenerations pop + 1) (Populations ga)"
    by (simp add: comp_def)
  finally show ?thesis
    by (simp add: ga')
qed


lemma Enhances_lockstep:
  assumes "\<And>m pop. Model ga = Some m \<Longrightarrow> PopGenerations (ModelApply m pop) = PopGenerations pop"
    and "\<And>mig pops r. Migrator ga = Some mig \<Longrightarrow>
             map PopGenerations (fst (MigratorApply mig pops r)) = map PopGenerations pops"
    and "\<And>pop. pop \<in> set (Populations ga) \<Longrightarrow> PopGenerations pop = Generations ga"
    and "Enhances env clocks ga = Inr gaN"
  shows "Generations gaN = Generations ga + of_nat (length clocks)
    \<and> (\<forall>pop \<in> set (Populations gaN). PopGenerations pop = Generations gaN)"
  using assms
proof (induction clocks arbitrary: ga)
  case Nil
  then show ?case by simp
next
  case (Cons clock clocks)
  from Cons.prems(4) obtain ga1 tr where
    step: "Enhance env clock ga = Inr (ga1, tr)" and rest: "Enhances env clocks ga1 = Inr gaN"
    by (auto split: sum.splits)
  from step obtain pops b r where
    "ga1 = ga\<lparr>Generations := Generations ga + 1, Populations := pops, rng := r, Best := b,
               Age := Age ga + gaElapsed clock\<rparr>"
    by (rule Enhance_frame)
  then have same: "Model ga1 = Model ga" "Migrator ga1 = Migrator ga"
    and g1: "Generations ga1 = Generations ga + 1"
    by simp_all
  have counters: "map PopGenerations (Populations ga1)
                    = map (\<lambda>pop. PopGenerations pop + 1) (Populations ga)"
    using Cons.prems(1,2) step by (rule Enhance_PopGenerations)
  have lock: "PopGenerations pop = Generations ga1" if "pop \<in> set (Populations ga1)" for pop
  proof -
    from that have "PopGenerations pop \<in> set (map PopGenerations (Populations ga1))"
      by simp
    then obtain pop0 where "pop0 \<in> set (Populations ga)" "PopGenerations pop = PopGenerations pop0 + 1"
      by (auto simp: counters)
    with Cons.prems(3) g1 show ?thesis by simp
  qed
  have "Generations gaN = Generations ga1 + of_nat (length clocks)
    \<and> (\<forall>pop \<in> set (Populations gaN). PopGenerations pop = Generations gaN)"
    using _ _ lock rest
  proof (rule Cons.IH)
    show "PopGenerations (ModelApply m pop) = PopGenerations pop" if "Model ga1 = Some m" for m pop
      using that Cons.prems(1) by (simp add: same)
    show "map PopGenerations (fst (MigratorApply mig pops r)) = map PopGenerations pops"
      if "Migrator ga1 = Some mig" for mig pops r
      using that Cons.prems(2) by (simp add: same)
  qed
  with g1 show ?case by simp
qed

text \<open>
  C9. Each \<open>Enhance\<close> adds exactly one to the GA's generation counter and exactly one to
  the generation counter of every population, as long as the model and the migrator leave
  the populations' counters alone. So after a single \<open>Initialize\<close> of a fresh GA (counter
  at zero) and any sequence of \<open>Enhance\<close> calls, every population's counter equals the
  GA's, which is the number of calls.
\<close>

theorem generation_counters_in_lockstep:
  assumes model: "\<And>m pop. Model ga = Some m \<Longrightarrow>
                    PopGenerations (ModelApply m pop) = PopGenerations pop"
    and migrator: "\<And>mig pops r. Migrator ga = Some mig \<Longrightarrow>
             map PopGenerations (fst (MigratorApply mig pops r)) = map PopGenerations pops"
  shows "(\<forall>clock ga' tr. Enhance env clock ga = Inr (ga', tr) \<longrightarrow>
            Generations ga' = Generations ga + 1
            \<and> map PopGenerations (Populations ga')
                = map (\<lambda>pop. PopGenerations pop + 1) (Populations ga))
    \<and> (\<forall>seeds clocks ga0 gaN.
          Generations ga = 0 \<and> Initialize env seeds ga = Inr ga0
          \<and> Enhances env clocks ga0 = Inr gaN \<longrightarrow>
            Generations gaN = of_nat (length clocks)
            \<and> (\<forall>pop \<in> set (Populations gaN). PopGenerations pop = Generations gaN))"
proof (intro conjI allI impI)
  fix clock ga' tr
  assume e: "Enhance env clock ga = Inr (ga', tr)"
  then show "Generations ga' = Generations ga + 1"
    by (rule Enhance_Generations)
  from model migrator e
  show "map PopGenerations (Populations ga') = map (\<lambda>pop. PopGenerations pop + 1) (Populations ga)"
    by (rule Enhance_PopGenerations)
next
  fix seeds clocks ga0 gaN
  assume a: "Generations ga = 0 \<and> Initialize env seeds ga = Inr ga0
          \<and> Enhances env clocks ga0 = Inr gaN"
  then have init: "Initialize env seeds ga = Inr ga0" and run: "Enhances env clocks ga0 = Inr gaN"
    by simp_all
  from init have frame: "ga0 = ga\<lparr>Populations := Populations ga0, Best := Best ga0, rng := rng ga0\<rparr>"
    by (rule Initialize_frame)
  have g0: "Generations ga0 = 0"
    by (subst frame) (simp add: a)
  have same: "Model ga0 = Model ga" "Migrator ga0 = Migrator ga"
    by (subst frame, simp)+
  have zero: "PopGenerations pop = Generations ga0" if "pop \<in> set (Populations ga0)" for pop
  proof -
    from init that obtain j where "Initialize_worker env seeds ga j = Inr pop"
      by (rule Initialize_populations)
    then have "PopGenerations pop = 0" by (rule Initialize_worker_pop)
    with g0 show ?thesis by simp
  qed
  have "Generations gaN = Generations ga0 + of_nat (length clocks)
    \<and> (\<forall>pop \<in> set (Populations gaN). PopGenerations pop = Generations gaN)"
    using _ _ zero run
  proof (rule Enhances_lockstep)
    show "PopGenerations (ModelApply m pop) = PopGenerations pop" if "Model ga0 = Some m" for m pop
      using that model by (simp add: same)
    show "map PopGenerations (fst (MigratorApply mig pops r)) = map PopGenerations pops"
      if "Migrator ga0 = Some mig" for mig pops r
      using that migrator by (simp add: same)
  qed
  with g0 show "Generations gaN = of_nat (length clocks)"
    and "\<forall>pop \<in> set (Populations gaN). PopGenerations pop = Generations gaN"
    by simp_all
qed


theorem generation_counters_in_lockstep_witness:
  "Generations demo_ga = 0
   \<and> Initialize demo_env demo_seeds demo_ga = Inr demo_ga0
   \<and> Enhances demo_env [demo_clock, demo_clock] demo_ga0 = Inr demo_ga2
   \<and> Generations demo_ga2 = 2
   \<and> list_all (\<lambda>pop. PopGenerations pop = Generations demo_ga2) (Populations demo_ga2)
   \<and> Enhance demo_env demo_clock demo_ga1 = Inr (demo_ga2, [MigratorCall, WorkerRun 0, WorkerRun 1])
   \<and> Generations demo_ga2 = Generations demo_ga1 + 1
   \<and> map PopGenerations (Populations demo_ga2)
       = map (\<lambda>pop. PopGenerations pop + 1) (Populations demo_ga1)"
proof -
  have model: "PopGenerations (ModelApply m pop) = PopGenerations pop"
    if "Model demo_ga = Some m" for m and pop :: "(int, int) Population"
    using that by (auto simp: demo_ga_def demo_model_def)
  have migrator: "map PopGenerations (fst (MigratorApply mig pops r)) = map PopGenerations pops"
    if "Migrator demo_ga = Some mig" for mig r and pops :: "(int, int) Population list"
    using that by (auto simp: demo_ga_def demo_migrator_def split: list.splits)
  have same: "Model demo_ga1 = Model demo_ga" "Migrator demo_ga1 = Migrator demo_ga"
    by (simp_all add: demo_ga1_def)
  have fresh: "Generations demo_ga = 0"
    by (simp add: demo_ga_def)
  from generation_counters_in_lockstep [of demo_ga demo_env, OF model migrator]
    fresh demo_Initialize demo_Enhances
  have run: "Generations demo_ga2 = of_nat (length [demo_clock, demo_clock])
    \<and> (\<forall>pop \<in> set (Populations demo_ga2). PopGenerations pop = Generations demo_ga2)"
    by blast
  have model1: "PopGenerations (ModelApply m pop) = PopGenerations pop"
    if "Model demo_ga1 = Some m" for m and pop :: "(int, int) Population"
    using that model by (simp add: same)
  have migrator1: "map PopGenerations (fst (MigratorApply mig pops r)) = map PopGenerations pops"
    if "Migrator demo_ga1 = Some mig" for mig r and pops :: "(int, int) Population list"
    using that migrator by (simp add: same)
  from generation_counters_in_lockstep [of demo_ga1 demo_env, OF model1 migrator1] demo_Enhance2
  have step: "Generations demo_ga2 = Generations demo_ga1 + 1
   \<and> map PopGenerations (Populations demo_ga2)
       = map (\<lambda>pop. PopGenerations pop + 1) (Populations demo_ga1)"
    by blast
  from fresh run step demo_Initialize demo_Enhances demo_Enhance2 show ?thesis
    by (simp add: list_all_iff)
qed

section \<open>The best individual\<close>

lemma firsts_nonempty:
  "(\<And>pop. pop \<in> set pops \<Longrightarrow> Individuals pop \<noteq> []) \<Longrightarrow>
   firsts pops = map (\<lambda>pop. Individuals pop ! 0) pops"
proof (induction pops)
  case Nil
  show ?case by (simp add: firsts_def)
next
  case (Cons pop pops)
  then have "firsts pops = map (\<lambda>pop. Individuals pop ! 0) pops" by simp
  moreover from Cons.prems have "take 1 (Individuals pop) = [Individuals pop ! 0]"
    by (cases "Individuals pop") simp_all
  ultimately show ?case by (simp add: firsts_def)
qed

lemma findBest_loop_firsts:
  assumes "findBest_loop b pops = Inr b'"
  shows "firsts pops = map (\<lambda>pop. Individuals pop ! 0) pops"
  using findBest_loop_nonempty [OF assms] by (rule firsts_nonempty)

lemma findBest_loop_summary:
  assumes "findBest_loop b pops = Inr b'"
  shows "Fitness b' \<le> Fitness b"
    and "\<forall>f \<in> set (firsts pops). Fitness b' \<le> Fitness f"
    and "b' = b \<or> b' \<in> set (firsts pops)"
    and "(\<exists>f \<in> set (firsts pops). Fitness f < Fitness b) \<longrightarrow> b' \<in> set (firsts pops)"
    and "(\<forall>f \<in> set (firsts pops). \<not> Fitness f < Fitness b) \<longrightarrow> b' = b"
    and "(\<exists>f \<in> set (firsts pops). Fitness f \<le> Fitness b) \<longrightarrow>
           (\<exists>f \<in> set (firsts pops). Fitness b' = Fitness f)"
proof -
  show le: "Fitness b' \<le> Fitness b"
    using assms by (rule findBest_loop_le')
  show low: "\<forall>f \<in> set (firsts pops). Fitness b' \<le> Fitness f"
    using assms by (blast intro: findBest_loop_lower)
  show mem: "b' = b \<or> b' \<in> set (firsts pops)"
    using assms by (rule findBest_loop_mem)
  show "(\<exists>f \<in> set (firsts pops). Fitness f < Fitness b) \<longrightarrow> b' \<in> set (firsts pops)"
    using assms by (blast intro: findBest_loop_replace)
  show "(\<forall>f \<in> set (firsts pops). \<not> Fitness f < Fitness b) \<longrightarrow> b' = b"
    using assms by (blast intro: findBest_loop_keep)
  show "(\<exists>f \<in> set (firsts pops). Fitness f \<le> Fitness b) \<longrightarrow>
           (\<exists>f \<in> set (firsts pops). Fitness b' = Fitness f)"
  proof
    assume "\<exists>f \<in> set (firsts pops). Fitness f \<le> Fitness b"
    then obtain f where f: "f \<in> set (firsts pops)" "Fitness f \<le> Fitness b" ..
    from mem show "\<exists>f \<in> set (firsts pops). Fitness b' = Fitness f"
    proof
      assume "b' = b"
      with low f have "Fitness b' = Fitness f" by (intro antisym) simp_all
      with f show ?thesis by blast
    qed blast
  qed
qed


lemma Initialize_Best:
  assumes "Initialize env seeds ga = Inr ga'" "MakeGenome ga = Some gm"
  shows "findBest_loop (MakeIndividual env (fst (gm (bestSeed seeds)))) (Populations ga')
           = Inr (Best ga')"
proof -
  from assms(1) obtain pops gm' b where
    "MakeGenome ga = Some gm'"
    "findBest_loop (MakeIndividual env (fst (gm' (bestSeed seeds)))) pops = Inr b"
    "ga' = ga\<lparr>Populations := pops, rng := gaSeed seeds, Best := b\<rparr>"
    by (rule Initialize_Inr)
  with assms(2) show ?thesis by simp
qed

text \<open>
  C1, as the code has it. \<open>Initialize\<close> sets \<open>Best\<close> to an unevaluated dummy and then
  scans the populations' first individuals with a strict comparison. When it returns,
  the fitness of \<open>Best\<close> is at most the dummy's and at most that of every first
  individual; if some first individual is strictly better than the dummy, \<open>Best\<close> is a
  first individual of least fitness (the dummy is overwritten); if none is, \<open>Best\<close> is
  still the dummy. Likewise after an \<open>Enhance\<close>: the fitness of \<open>Best\<close> is at most the
  previous one and at most that of every first individual, \<open>Best\<close> is the previous best
  or a first individual, and its fitness is that of a first individual, hence the least
  among them, whenever some first individual is at least as good as the previous best.
\<close>

theorem Best_after_Initialize_and_Enhance:
  "(\<forall>ga' gm. Initialize env seeds ga = Inr ga' \<and> MakeGenome ga = Some gm \<longrightarrow>
      firsts (Populations ga') = map (\<lambda>pop. Individuals pop ! 0) (Populations ga')
      \<and> Fitness (Best ga') \<le> unevaluatedFitness env
      \<and> (\<forall>f \<in> set (firsts (Populations ga')). Fitness (Best ga') \<le> Fitness f)
      \<and> ((\<exists>f \<in> set (firsts (Populations ga')). Fitness f < unevaluatedFitness env) \<longrightarrow>
            Best_is_best_first ga')
      \<and> ((\<forall>f \<in> set (firsts (Populations ga')). \<not> Fitness f < unevaluatedFitness env) \<longrightarrow>
            Best ga' = MakeIndividual env (fst (gm (bestSeed seeds)))))
   \<and> (\<forall>clock ga' tr. Enhance env clock ga = Inr (ga', tr) \<longrightarrow>
      firsts (Populations ga') = map (\<lambda>pop. Individuals pop ! 0) (Populations ga')
      \<and> Fitness (Best ga') \<le> Fitness (Best ga)
      \<and> (\<forall>f \<in> set (firsts (Populations ga')). Fitness (Best ga') \<le> Fitness f)
      \<and> (Best ga' = Best ga \<or> Best ga' \<in> set (firsts (Populations ga')))
      \<and> ((\<exists>f \<in> set (firsts (Populations ga')). Fitness f \<le> Fitness (Best ga)) \<longrightarrow>
            (\<exists>f \<in> set (firsts (Populations ga')). Fitness (Best ga') = Fitness f)))"
proof (intro conjI allI impI; (elim conjE)?)
  fix ga' gm
  assume "Initialize env seeds ga = Inr ga'" "MakeGenome ga = Some gm"
  then have loop: "findBest_loop (MakeIndividual env (fst (gm (bestSeed seeds)))) (Populations ga')
           = Inr (Best ga')"
    by (rule Initialize_Best)
  have d: "Fitness (MakeIndividual env (fst (gm (bestSeed seeds)))) = unevaluatedFitness env"
    by (simp add: MakeIndividual_def)
  note s = findBest_loop_summary [OF loop, unfolded d]
  show "firsts (Populations ga') = map (\<lambda>pop. Individuals pop ! 0) (Populations ga')"
    using loop by (rule findBest_loop_firsts)
  show "Fitness (Best ga') \<le> unevaluatedFitness env"
    by (rule s(1))
  show low: "\<forall>f \<in> set (firsts (Populations ga')). Fitness (Best ga') \<le> Fitness f"
    by (rule s(2))
  show "Best_is_best_first ga'"
    if "\<exists>f \<in> set (firsts (Populations ga')). Fitness f < unevaluatedFitness env"
    using that s(4) low by (simp add: Best_is_best_first_def)
  show "Best ga' = MakeIndividual env (fst (gm (bestSeed seeds)))"
    if "\<forall>f \<in> set (firsts (Populations ga')). \<not> Fitness f < unevaluatedFitness env"
    using that s(5) by simp
next
  fix clock ga' tr
  assume "Enhance env clock ga = Inr (ga', tr)"
  then have loop: "findBest_loop (Best ga) (Populations ga') = Inr (Best ga')"
    by (rule Enhance_Best)
  note s = findBest_loop_summary [OF loop]
  show "firsts (Populations ga') = map (\<lambda>pop. Individuals pop ! 0) (Populations ga')"
    using loop by (rule findBest_loop_firsts)
  show "Fitness (Best ga') \<le> Fitness (Best ga)"
    by (rule s(1))
  show "\<forall>f \<in> set (firsts (Populations ga')). Fitness (Best ga') \<le> Fitness f"
    by (rule s(2))
  show "Best ga' = Best ga \<or> Best ga' \<in> set (firsts (Populations ga'))"
    by (rule s(3))
  show "\<exists>f \<in> set (firsts (Populations ga')). Fitness (Best ga') = Fitness f"
    if "\<exists>f \<in> set (firsts (Populations ga')). Fitness f \<le> Fitness (Best ga)"
    using that s(6) by simp
qed

theorem Best_after_Initialize_and_Enhance_witness:
  "Initialize demo_env demo_seeds demo_ga = Inr demo_ga0
   \<and> MakeGenome demo_ga = Some demo_MakeGenome
   \<and> firsts (Populations demo_ga0) = [\<lparr>Genome = 0, Fitness = Fin 0\<rparr>, \<lparr>Genome = 1, Fitness = Fin 1\<rparr>]
   \<and> Fin 0 < unevaluatedFitness demo_env
   \<and> Best_is_best_first demo_ga0
   \<and> Enhance demo_env demo_clock demo_ga0 = Inr (demo_ga1, [WorkerRun 0, WorkerRun 1])
   \<and> firsts (Populations demo_ga1)
       = [\<lparr>Genome = - 1, Fitness = Fin (- 1)\<rparr>, \<lparr>Genome = 0, Fitness = Fin 0\<rparr>]
   \<and> Fin (- 1) \<le> Fitness (Best demo_ga0)
   \<and> (\<exists>f \<in> set (firsts (Populations demo_ga1)). Fitness (Best demo_ga1) = Fitness f)
   \<and> (\<exists>ga'. Initialize (demo_env\<lparr>GenomeEvaluate := (\<lambda>g. PosInf)\<rparr>) demo_seeds demo_ga = Inr ga'
         \<and> map Fitness (firsts (Populations ga')) = [PosInf, PosInf]
         \<and> Best ga' = MakeIndividual demo_env (fst (demo_MakeGenome (bestSeed demo_seeds))))"
proof -
  let ?env = "demo_env\<lparr>GenomeEvaluate := (\<lambda>g. PosInf)\<rparr>"
  have mg: "MakeGenome demo_ga = Some demo_MakeGenome"
    by (simp add: demo_ga_def)
  have f0: "firsts (Populations demo_ga0)
              = [\<lparr>Genome = 0, Fitness = Fin 0\<rparr>, \<lparr>Genome = 1, Fitness = Fin 1\<rparr>]"
    by (simp add: demo_ga0_def demo_pop_def firsts_def)
  have f1: "firsts (Populations demo_ga1)
              = [\<lparr>Genome = - 1, Fitness = Fin (- 1)\<rparr>, \<lparr>Genome = 0, Fitness = Fin 0\<rparr>]"
    by (simp add: demo_ga1_def demo_pop_def firsts_def)
  have u: "Fin 0 < unevaluatedFitness demo_env"
    by (simp add: demo_env_def less_float64_def)
  have b0: "Fin (- 1) \<le> Fitness (Best demo_ga0)"
    by (simp add: demo_ga0_def)
  from Best_after_Initialize_and_Enhance [of demo_env demo_seeds demo_ga]
    demo_Initialize mg f0 u
  have "Best_is_best_first demo_ga0"
    by fastforce
  moreover
  from Best_after_Initialize_and_Enhance [of demo_env demo_seeds demo_ga0]
    demo_Enhance f1 b0
  have "\<exists>f \<in> set (firsts (Populations demo_ga1)). Fitness (Best demo_ga1) = Fitness f"
    by fastforce
  moreover
  have "\<exists>ga'. Initialize ?env demo_seeds demo_ga = Inr ga'
           \<and> map Fitness (firsts (Populations ga')) = [PosInf, PosInf]"
    by (simp add: demo_defs Initialize_def Initialize_worker_def makePopulation_def
        MakeIndividual_def Evaluate_def Sort_def findBest_def upt_rec numeral_3_eq_3
        less_float64_def firsts_def)
  then obtain ga' where
    i: "Initialize ?env demo_seeds demo_ga = Inr ga'"
    and f: "map Fitness (firsts (Populations ga')) = [PosInf, PosInf]"
    by (elim exE conjE)
  have none: "\<forall>x \<in> set (firsts (Populations ga')). \<not> Fitness x < unevaluatedFitness ?env"
  proof
    fix x
    assume "x \<in> set (firsts (Populations ga'))"
    then have "Fitness x \<in> set (map Fitness (firsts (Populations ga')))" by simp
    then show "\<not> Fitness x < unevaluatedFitness ?env" by (simp add: f demo_env_def)
  qed
  note at_inf = Best_after_Initialize_and_Enhance [of ?env demo_seeds demo_ga, THEN conjunct1,
      THEN spec, THEN spec, THEN mp, OF conjI [OF i mg]]
  from at_inf have "(\<forall>x \<in> set (firsts (Populations ga')). \<not> Fitness x < unevaluatedFitness ?env)
      \<longrightarrow> Best ga' = MakeIndividual ?env (fst (demo_MakeGenome (bestSeed demo_seeds)))"
    by (elim conjE)
  then have "Best ga' = MakeIndividual ?env (fst (demo_MakeGenome (bestSeed demo_seeds)))"
    using none by (rule mp)
  then have "Best ga' = MakeIndividual demo_env (fst (demo_MakeGenome (bestSeed demo_seeds)))"
    by (simp add: MakeIndividual_def)
  with i f have "\<exists>ga'. Initialize ?env demo_seeds demo_ga = Inr ga'
         \<and> map Fitness (firsts (Populations ga')) = [PosInf, PosInf]
         \<and> Best ga' = MakeIndividual demo_env (fst (demo_MakeGenome (bestSeed demo_seeds)))"
    by (intro exI conjI)
  ultimately show ?thesis
    using demo_Initialize demo_Enhance mg f0 f1 u b0 by simp
qed

text \<open>
  C1 as stated fails. With the unevaluated fitness at \<open>+Inf\<close> and genomes that all
  evaluate to \<open>+Inf\<close>, and with the unevaluated fitness at \<open>0\<close> and genomes whose
  fitness is positive, no first individual is strictly better than the dummy:
  \<open>Initialize\<close> returns with \<open>Best\<close> still the dummy, which is none of the populations'
  first individuals.
\<close>

theorem dummy_Best_not_overwritten_counterexample:
  "(case Initialize (demo_env\<lparr>GenomeEvaluate := (\<lambda>g. PosInf)\<rparr>)
           (demo_seeds\<lparr>bestSeed := 9\<rparr>) demo_ga of
      Inl p \<Rightarrow> False
    | Inr ga' \<Rightarrow> Best ga' = \<lparr>Genome = 2, Fitness = PosInf\<rparr> \<and> \<not> Best_is_best_first ga')
   \<and> (case Initialize (demo_env\<lparr>GenomeEvaluate := (\<lambda>g. Fin (of_int g + 1)),
                                  unevaluatedFitness := Fin 0\<rparr>)
           (demo_seeds\<lparr>bestSeed := 9\<rparr>) demo_ga of
      Inl p \<Rightarrow> False
    | Inr ga' \<Rightarrow> Best ga' = \<lparr>Genome = 2, Fitness = Fin 0\<rparr> \<and> \<not> Best_is_best_first ga')"
  by (simp add: demo_defs Initialize_def Initialize_worker_def makePopulation_def
      MakeIndividual_def Evaluate_def Sort_def findBest_def upt_rec numeral_3_eq_3
      less_float64_def Best_is_best_first_def firsts_def)

section \<open>Speciation\<close>

lemma evolve_Some:
  assumes "Model ga = Some model"
  shows "evolve env ga pop =
    Inr (if 0 < sint (NSpecies (Topology ga))
         then pop\<lparr>Individuals := merge (map (ModelApply model) (speciate env pop (NSpecies (Topology ga))))\<rparr>
         else ModelApply model pop)"
proof -
  have "forEach (applyModel (Some model)) species = Inr (map (ModelApply model) species)" for species
    by (rule forEach_map) (simp add: applyModel_def)
  with assms show ?thesis
    by (simp add: evolve_def applyModel_def)
qed

lemma Enhance_worker_Some:
  assumes "Model ga = Some model"
  shows "\<exists>pop'. Enhance_worker env clock ga (j, pop) = Inr pop'
           \<and> Individuals pop' = Sort (Evaluate env (evolved env model (NSpecies (Topology ga)) pop))"
  by (simp add: Enhance_worker_def evolve_Some [OF assms] evolved_def)

lemma length_merge: "length (merge species) = sum_list (map (\<lambda>s. length (Individuals s)) species)"
  by (simp add: merge_def length_concat comp_def)

lemma speciate_keeps_count:
  assumes "mset (merge species) = mset indis"
    and "\<And>s. s \<in> set species \<Longrightarrow> length (Individuals (ModelApply model s)) = length (Individuals s)"
  shows "length (merge (map (ModelApply model) species)) = length indis"
proof -
  have eq: "map (\<lambda>s. length (Individuals (ModelApply model s))) species
          = map (\<lambda>s. length (Individuals s)) species"
    using assms(2) by (intro map_cong) simp_all
  have "length (merge (map (ModelApply model) species))
          = sum_list (map (\<lambda>s. length (Individuals (ModelApply model s))) species)"
    by (simp add: length_merge comp_def)
  also have "\<dots> = sum_list (map (\<lambda>s. length (Individuals s)) species)"
    by (simp only: eq)
  also have "\<dots> = length (merge species)"
    by (simp only: length_merge)
  also from assms(1) have "\<dots> = length indis"
    by (rule mset_eq_length)
  finally show ?thesis .
qed

lemma Enhance_population_nth:
  assumes e: "Enhance env clock ga = Inr (ga', tr)"
    and m: "migrate (ga\<lparr>Generations := Generations ga + 1\<rparr>) = Inr (ga1, migs)"
  shows "length (Populations ga') = length (Populations ga1)"
    and "j < length (Populations ga1) \<Longrightarrow>
           Enhance_worker env clock ga1 (j, Populations ga1 ! j) = Inr (Populations ga' ! j)"
proof -
  from e obtain ga1' migs' pops b where
    m': "migrate (ga\<lparr>Generations := Generations ga + 1\<rparr>) = Inr (ga1', migs')"
    and w': "forEach (Enhance_worker env clock ga1') (enumerate 0 (Populations ga1')) = Inr pops"
    and ga': "ga' = ga1'\<lparr>Populations := pops, Best := b, Age := Age ga1' + gaElapsed clock\<rparr>"
    by (rule Enhance_Inr)
  from m m' have "ga1' = ga1" by simp
  with w' have w: "forEach (Enhance_worker env clock ga1) (enumerate 0 (Populations ga1)) = Inr pops"
    by simp
  then have l: "list_all2 (\<lambda>jp pop'. Enhance_worker env clock ga1 jp = Inr pop')
                  (enumerate 0 (Populations ga1)) pops"
    by (rule forEach_Inr)
  from ga' have pops: "Populations ga' = pops" by simp
  from l show "length (Populations ga') = length (Populations ga1)"
    by (simp add: pops list_all2_lengthD [symmetric])
  assume j: "j < length (Populations ga1)"
  with l have "Enhance_worker env clock ga1 (enumerate 0 (Populations ga1) ! j) = Inr (pops ! j)"
    by (simp add: list_all2_conv_all_nth)
  with j show "Enhance_worker env clock ga1 (j, Populations ga1 ! j) = Inr (Populations ga' ! j)"
    by (simp add: pops nth_enumerate_eq)
qed


text \<open>
  C8. In an \<open>Enhance\<close> that returns, with a model set, the worker of every population
  (as the migration gate left it) does this: with \<open>NSpecies > 0\<close> it speciates the
  population into the species \<open>speciate\<close> gives for \<open>NSpecies\<close>, applies the model to
  each species and merges them back; otherwise it applies the model to the whole
  population. In both cases it then evaluates every individual and sorts: the
  population's individuals are the sorted, evaluated individuals the model left, with
  the same genomes. When the species cover the population's individuals exactly once and
  the model keeps the size of each species, the number of individuals is unchanged.
\<close>

theorem Enhance_evolves_every_population:
  assumes e: "Enhance env clock ga = Inr (ga', tr)"
    and m: "migrate (ga\<lparr>Generations := Generations ga + 1\<rparr>) = Inr (ga1, migs)"
    and model: "Model ga = Some model"
  shows "length (Populations ga') = length (Populations ga1)
    \<and> (\<forall>j < length (Populations ga1).
         Individuals (Populations ga' ! j)
           = Sort (Evaluate env (evolved env model (NSpecies (Topology ga)) (Populations ga1 ! j)))
         \<and> sorted (map Fitness (Individuals (Populations ga' ! j)))
         \<and> (\<forall>indi \<in> set (Individuals (Populations ga' ! j)).
               Fitness indi = GenomeEvaluate env (Genome indi))
         \<and> mset (map Genome (Individuals (Populations ga' ! j)))
             = mset (map Genome (evolved env model (NSpecies (Topology ga)) (Populations ga1 ! j)))
         \<and> (0 < sint (NSpecies (Topology ga))
              \<and> mset (merge (speciate env (Populations ga1 ! j) (NSpecies (Topology ga))))
                  = mset (Individuals (Populations ga1 ! j))
              \<and> (\<forall>s \<in> set (speciate env (Populations ga1 ! j) (NSpecies (Topology ga))).
                    length (Individuals (ModelApply model s)) = length (Individuals s))
              \<longrightarrow> length (Individuals (Populations ga' ! j))
                    = length (Individuals (Populations ga1 ! j))))"
proof (intro conjI allI impI)
  show "length (Populations ga') = length (Populations ga1)"
    using e m by (rule Enhance_population_nth)
next
  fix j
  assume j: "j < length (Populations ga1)"
  let ?pop = "Populations ga1 ! j" and ?pop' = "Populations ga' ! j"
  let ?n = "NSpecies (Topology ga)"
  from m obtain ps r where
    "ga1 = ga\<lparr>Generations := Generations ga + 1, Populations := ps, rng := r\<rparr>"
    by (rule migrate_frame)
  then have same: "Model ga1 = Some model" "Topology ga1 = Topology ga"
    by (simp_all add: model)
  from e m j have "Enhance_worker env clock ga1 (j, ?pop) = Inr ?pop'"
    by (rule Enhance_population_nth)
  with Enhance_worker_Some [OF same(1), of env clock j ?pop]
  show indis: "Individuals ?pop' = Sort (Evaluate env (evolved env model ?n ?pop))"
    by (auto simp: same(2))
  show "sorted (map Fitness (Individuals ?pop'))"
    by (simp add: indis Sort_sorted)
  show "\<forall>indi \<in> set (Individuals ?pop'). Fitness indi = GenomeEvaluate env (Genome indi)"
    by (simp add: indis Sort_set Evaluate_evaluated)
  have "mset (map Genome (Individuals ?pop'))
          = mset (map Genome (Evaluate env (evolved env model ?n ?pop)))"
    by (simp add: indis Sort_def)
  also have "\<dots> = mset (map Genome (evolved env model ?n ?pop))"
    by (simp only: Evaluate_genomes)
  finally show "mset (map Genome (Individuals ?pop'))
                  = mset (map Genome (evolved env model ?n ?pop))" .
  assume a: "0 < sint ?n
              \<and> mset (merge (speciate env ?pop ?n)) = mset (Individuals ?pop)
              \<and> (\<forall>s \<in> set (speciate env ?pop ?n).
                    length (Individuals (ModelApply model s)) = length (Individuals s))"
  then have "length (merge (map (ModelApply model) (speciate env ?pop ?n)))
               = length (Individuals ?pop)"
    by (intro speciate_keeps_count) simp_all
  with a show "length (Individuals ?pop') = length (Individuals ?pop)"
    by (simp add: indis Sort_length Evaluate_length evolved_def)
qed

lemma demo_Enhance_species:
  "Enhance demo_env demo_clock demo_gaS = Inr (demo_gaS1, [WorkerRun 0, WorkerRun 1])"
  by (simp add: demo_defs demo_ga1_def demo_gaS_def demo_gaS1_def Enhance_def migrate_def go_rem_def
      Enhance_worker_def evolve_def applyModel_def merge_def signed_modulo_int_def
      Evaluate_def Sort_def findBest_def upt_rec less_float64_def)


theorem Enhance_evolves_every_population_witness:
  "Enhance demo_env demo_clock demo_gaS = Inr (demo_gaS1, [WorkerRun 0, WorkerRun 1])
   \<and> migrate (demo_gaS\<lparr>Generations := Generations demo_gaS + 1\<rparr>)
       = Inr (demo_gaS\<lparr>Generations := Generations demo_gaS + 1\<rparr>, [])
   \<and> Model demo_gaS = Some demo_model
   \<and> 0 < sint (NSpecies (Topology demo_gaS))
   \<and> map (\<lambda>s. map Genome (Individuals s)) (speciate demo_env (Populations demo_gaS ! 0) 2)
       = [[0, 3], [1]]
   \<and> length (Individuals (Populations demo_gaS1 ! 0)) = length (Individuals (Populations demo_gaS ! 0))
   \<and> Individuals (Populations demo_gaS1 ! 0)
       = Sort (Evaluate demo_env (evolved demo_env demo_model 2 (Populations demo_gaS ! 0)))
   \<and> map Genome (Individuals (Populations demo_gaS1 ! 0)) = [- 1, 0, 2]"
proof -
  let ?ga1 = "demo_gaS\<lparr>Generations := Generations demo_gaS + 1\<rparr>"
  let ?pop = "Populations demo_gaS ! 0"
  have mig: "migrate ?ga1 = Inr (?ga1, [])"
    by (simp add: migrate_def demo_gaS_def demo_ga0_def demo_ga_def go_rem_def
        signed_modulo_int_def)
  have model: "Model demo_gaS = Some demo_model"
    by (simp add: demo_gaS_def demo_ga0_def demo_ga_def)
  have n: "NSpecies (Topology demo_gaS) = 2"
    by (simp add: demo_gaS_def)
  have pop: "Populations ?ga1 ! 0 = ?pop" "0 < length (Populations ?ga1)"
    by (simp_all add: demo_gaS_def demo_ga0_def)
  have species: "map (\<lambda>s. map Genome (Individuals s)) (speciate demo_env ?pop 2) = [[0, 3], [1]]"
    by (simp add: demo_gaS_def demo_ga0_def demo_pop_def demo_env_def demo_speciate_def upt_rec)
  have cover: "mset (merge (speciate demo_env ?pop 2)) = mset (Individuals ?pop)"
    by (simp add: demo_gaS_def demo_ga0_def demo_pop_def demo_env_def demo_speciate_def upt_rec
        merge_def)
  have size: "\<forall>s \<in> set (speciate demo_env ?pop 2).
                length (Individuals (ModelApply demo_model s)) = length (Individuals s)"
    by (simp add: demo_model_def)
  have genomes: "map Genome (Individuals (Populations demo_gaS1 ! 0)) = [- 1, 0, 2]"
    by (simp add: demo_gaS1_def demo_ga1_def demo_pop_def)
  from Enhance_evolves_every_population [OF demo_Enhance_species mig model] pop
  have "Individuals (Populations demo_gaS1 ! 0)
           = Sort (Evaluate demo_env (evolved demo_env demo_model 2 ?pop))
    \<and> (0 < sint (2 :: go_int)
         \<and> mset (merge (speciate demo_env ?pop 2)) = mset (Individuals ?pop)
         \<and> (\<forall>s \<in> set (speciate demo_env ?pop 2).
               length (Individuals (ModelApply demo_model s)) = length (Individuals s))
         \<longrightarrow> length (Individuals (Populations demo_gaS1 ! 0)) = length (Individuals ?pop))"
    by (auto simp: n)
  moreover have "0 < sint (2 :: go_int)"
    by simp
  ultimately have
    "Individuals (Populations demo_gaS1 ! 0)
           = Sort (Evaluate demo_env (evolved demo_env demo_model 2 ?pop))"
    "length (Individuals (Populations demo_gaS1 ! 0)) = length (Individuals ?pop)"
    using cover size by blast+
  with demo_Enhance_species mig model n species genomes show ?thesis
    by simp
qed

end
